theory Spec2Isabelle
  imports Main
begin

section \<open>The inspect command of poetry: data model\<close>

text \<open>
  The development embeds \<^verbatim>\<open>src/poetry/console/commands/inspect.py\<close>.
  A metadata value is \<^verbatim>\<open>str | list[str]\<close>, as the annotations of the source say.
  A metadata record is a Python \<^verbatim>\<open>dict\<close>, which keeps insertion order: an association
  list whose keys are written by \<open>dict_set\<close> only.
\<close>

datatype pyval = VStr string | VList "string list"

type_synonym metadata = "(string \<times> pyval) list"

text \<open>\<^verbatim>\<open>d[k] = v\<close>: an existing key keeps its position, a new key goes to the end.\<close>

fun dict_set :: "string \<Rightarrow> pyval \<Rightarrow> metadata \<Rightarrow> metadata" where
  "dict_set k v [] = [(k, v)]"
| "dict_set k v ((k', v') # d) = (if k' = k then (k, v) # d else (k', v') # dict_set k v d)"

text \<open>\<^verbatim>\<open>d.update(other)\<close>: every pair of \<open>other\<close> is stored, in the order of \<open>other\<close>.\<close>

definition dict_update :: "metadata \<Rightarrow> metadata \<Rightarrow> metadata" where
  "dict_update d other = fold (\<lambda>(k, v). dict_set k v) other d"

text \<open>The attributes of a \<^verbatim>\<open>Package\<close> that the command reads.\<close>

record package =
  name :: string
  pretty_name :: string
  pretty_version :: string
  description :: string

text \<open>
  What the command reads of an \<^verbatim>\<open>importlib.metadata.Distribution\<close>: the \<^verbatim>\<open>json\<close>
  attribute of its metadata (\<open>None\<close> when \<^verbatim>\<open>hasattr(d.metadata, "json")\<close> is false)
  and its entry points as pairs of \<^verbatim>\<open>ep.name\<close> and \<^verbatim>\<open>ep.value\<close>.
\<close>

record distribution =
  json :: "metadata option"
  entry_points :: "(string \<times> string) list"

text \<open>
  The collaborators of the command, none of them code of this file:
  \<^item> \<open>root_package\<close> is \<^verbatim>\<open>self.poetry.package\<close>;
  \<^item> \<open>locked_packages\<close> is \<^verbatim>\<open>self.poetry.locker.locked_repository().packages\<close>;
  \<^item> \<open>pkg_eq\<close> is \<^verbatim>\<open>==\<close> on packages, the \<^verbatim>\<open>Package.__eq__\<close> of poetry-core;
  \<^item> \<open>canonicalize_name\<close> is the function of \<^verbatim>\<open>packaging.utils\<close>;
  \<^item> \<open>from_name\<close> is \<^verbatim>\<open>Distribution.from_name\<close>, with \<open>None\<close> for
    \<^verbatim>\<open>PackageNotFoundError\<close>;
  \<^item> \<open>json_dumps\<close> is the serializer behind \<^verbatim>\<open>json.dump\<close>.
\<close>

record env =
  root_package :: package
  locked_packages :: "package list"
  pkg_eq :: "package \<Rightarrow> package \<Rightarrow> bool"
  canonicalize_name :: "string \<Rightarrow> string"
  from_name :: "string \<Rightarrow> distribution option"
  json_dumps :: "metadata \<Rightarrow> string"

text \<open>The argument and the options of the command line.\<close>

record options =
  dependency :: "string option"
  opt_json :: bool
  opt_compact :: bool
  opt_list_properties :: bool
  opt_property :: "string list"

text \<open>
  Output. \<^verbatim>\<open>self.line\<close> and the rendered table go to standard output,
  \<^verbatim>\<open>self.line_error\<close> and \<^verbatim>\<open>json.dump(..., fp=sys.stderr)\<close> to the error stream.
  The layout of a table is the work of cleo: the model records the rows handed to it.
\<close>

datatype event = Line string | Write string | Table "string list list"

record io =
  out :: "event list"
  err :: "event list"

definition line :: "string \<Rightarrow> io \<Rightarrow> io" where
  "line s i = i\<lparr>out := out i @ [Line s]\<rparr>"

definition line_error :: "string \<Rightarrow> io \<Rightarrow> io" where
  "line_error s i = i\<lparr>err := err i @ [Line s]\<rparr>"

definition write_stderr :: "string \<Rightarrow> io \<Rightarrow> io" where
  "write_stderr s i = i\<lparr>err := err i @ [Write s]\<rparr>"

definition render_table :: "string list list \<Rightarrow> io \<Rightarrow> io" where
  "render_table rows i = i\<lparr>out := out i @ [Table rows]\<rparr>"

text \<open>The exceptions that leave the command: both are \<^verbatim>\<open>ValueError\<close> with a message.\<close>

datatype error = ValueError string

section \<open>Strings\<close>

text \<open>
  \<^verbatim>\<open>sep.join(xs)\<close>, \<^verbatim>\<open>s.split(",")\<close>, \<^verbatim>\<open>s.replace(a, b)\<close> on single characters
  and the case functions of \<^verbatim>\<open>str\<close>, the last on ASCII letters (the model says nothing
  of the case of other characters).
\<close>

fun join :: "string \<Rightarrow> string list \<Rightarrow> string" where
  "join sep [] = []"
| "join sep [x] = x"
| "join sep (x # y # ys) = x @ sep @ join sep (y # ys)"

fun split_on :: "char \<Rightarrow> string \<Rightarrow> string list" where
  "split_on sep [] = [[]]"
| "split_on sep (c # cs) =
     (if c = sep then [] # split_on sep cs
      else (case split_on sep cs of
              [] \<Rightarrow> [[c]]
            | w # ws \<Rightarrow> (c # w) # ws))"

definition replace_char :: "char \<Rightarrow> char \<Rightarrow> string \<Rightarrow> string" where
  "replace_char a b s = map (\<lambda>c. if c = a then b else c) s"

definition is_upper :: "char \<Rightarrow> bool" where
  "is_upper c = (65 \<le> (of_char c :: nat) \<and> (of_char c :: nat) \<le> 90)"

definition is_lower :: "char \<Rightarrow> bool" where
  "is_lower c = (97 \<le> (of_char c :: nat) \<and> (of_char c :: nat) \<le> 122)"

definition lower_char :: "char \<Rightarrow> char" where
  "lower_char c = (if is_upper c then char_of ((of_char c :: nat) + 32) else c)"

definition upper_char :: "char \<Rightarrow> char" where
  "upper_char c = (if is_lower c then char_of ((of_char c :: nat) - 32) else c)"

definition lower :: "string \<Rightarrow> string" where
  "lower s = map lower_char s"

text \<open>\<^verbatim>\<open>s.capitalize()\<close>: the first character in upper case, all the others in lower case.\<close>

fun capitalize :: "string \<Rightarrow> string" where
  "capitalize [] = []"
| "capitalize (c # cs) = upper_char c # lower cs"

section \<open>The module\<close>

definition DISPLAY_GAP_FOR_SAME_KEY :: string where
  "DISPLAY_GAP_FOR_SAME_KEY = CHR 0x0A # ''   ''"

definition MAX_DISPLAY_LINE_LENGTH :: nat where
  "MAX_DISPLAY_LINE_LENGTH = 79"

definition SKIP_PROPERTIES :: "string list" where
  "SKIP_PROPERTIES = [''description'', ''summary'', ''metadata_version'']"

definition URL_PROPERTIES :: "string list" where
  "URL_PROPERTIES = [''project_url'']"

definition LONG_PROPERTIES :: "string list" where
  "LONG_PROPERTIES = [''license'']"

text \<open>
  \<^verbatim>\<open>name, url_ = url.split(",")\<close> raises \<^verbatim>\<open>ValueError\<close> unless the split has exactly
  two parts; the loop of \<^verbatim>\<open>display_pretty_urls\<close> stops at the first element that raises.
  The messages are those of CPython; no theorem depends on their wording.
\<close>

definition unpack_pair :: "string list \<Rightarrow> error + (string \<times> string)" where
  "unpack_pair parts =
     (case parts of
        [a, b] \<Rightarrow> Inr (a, b)
      | [] \<Rightarrow> Inl (ValueError ''not enough values to unpack (expected 2, got 0)'')
      | [a] \<Rightarrow> Inl (ValueError ''not enough values to unpack (expected 2, got 1)'')
      | _ \<Rightarrow> Inl (ValueError ''too many values to unpack (expected 2)''))"

fun pretty_urls :: "string list \<Rightarrow> error + string list" where
  "pretty_urls [] = Inr []"
| "pretty_urls (url # urls) =
     (case unpack_pair (split_on CHR '','' url) of
        Inl e \<Rightarrow> Inl e
      | Inr (name', url') \<Rightarrow>
          (case pretty_urls urls of
             Inl e \<Rightarrow> Inl e
           | Inr res \<Rightarrow> Inr ((''<c1>'' @ name' @ ''</> -'' @ url') # res)))"

definition display_pretty_urls :: "string list \<Rightarrow> error + string" where
  "display_pretty_urls urls =
     (case pretty_urls urls of
        Inl e \<Rightarrow> Inl e
      | Inr res \<Rightarrow> Inr (join DISPLAY_GAP_FOR_SAME_KEY res))"

definition display_pretty_list :: "string list \<Rightarrow> string" where
  "display_pretty_list items = join DISPLAY_GAP_FOR_SAME_KEY items"

definition prettify :: "string \<Rightarrow> string" where
  "prettify s = capitalize (replace_char CHR ''_'' CHR '' '' s)"

section \<open>InspectCommand\<close>

definition get_entry_points :: "distribution \<Rightarrow> string list" where
  "get_entry_points dist = map (\<lambda>(n, v). n @ '' source: '' @ v) (entry_points dist)"

text \<open>
  \<^verbatim>\<open>inspect_metadata\<close> returns the record and the output it has written. It has no
  raising branch: \<^verbatim>\<open>PackageNotFoundError\<close> is caught.
\<close>

definition seed_metadata :: "package \<Rightarrow> metadata" where
  "seed_metadata p =
     [(''name'', VStr (pretty_name p)),
      (''version'', VStr (pretty_version p)),
      (''package_description'', VStr (description p))]"

definition inspect_metadata :: "env \<Rightarrow> package \<Rightarrow> io \<Rightarrow> metadata \<times> io" where
  "inspect_metadata e p i =
     (let metadata = seed_metadata p in
      case from_name e (name p) of
        None \<Rightarrow>
          (metadata,
           line (''<warning>Could not find package metadata for name: '' @ name p
                 @ '': showing basic info</>'') i)
      | Some d \<Rightarrow>
          (let (metadata1, i1) =
                 (case json d of
                    Some j \<Rightarrow> (dict_update metadata j, i)
                  | None \<Rightarrow>
                      (metadata,
                       line (''<error>Could not find distribution metadata: '' @ name p
                             @ ''</>'') i));
               ep = get_entry_points d
           in if ep \<noteq> [] then (dict_set ''entry_points'' (VList ep) metadata1, i1)
              else (metadata1, i1)))"

text \<open>
  \<^verbatim>\<open>_get_package_from_dependency\<close>. \<^verbatim>\<open>if dep\<close> is false for an absent argument and
  for the empty string. The loop with \<^verbatim>\<open>break\<close> keeps the first locked package of the
  canonical name, which is \<open>find\<close>.
\<close>

definition get_package_from_dependency :: "env \<Rightarrow> string option \<Rightarrow> error + package" where
  "get_package_from_dependency e dep =
     (case dep of
        None \<Rightarrow> Inr (root_package e)
      | Some d \<Rightarrow>
          if d = [] then Inr (root_package e)
          else
            (let canonicalized_package = canonicalize_name e d;
                 pkg = (case find (\<lambda>locked. name locked = canonicalized_package)
                               (locked_packages e) of
                          Some locked \<Rightarrow> locked
                        | None \<Rightarrow> root_package e)
             in if pkg_eq e pkg (root_package e)
                then Inl (ValueError (''Package '' @ [CHR 0x27] @ d @ [CHR 0x27] @ '' not found''))
                else Inr pkg))"

text \<open>The value column of a row of \<^verbatim>\<open>build_rows_from_metadata\<close>, before truncation.\<close>

definition row_items :: "string \<Rightarrow> pyval \<Rightarrow> error + string" where
  "row_items prop items =
     (if prop \<in> set URL_PROPERTIES then
        (case items of
           VList l \<Rightarrow> display_pretty_urls l
         | VStr s \<Rightarrow> Inr s)
      else
        (case items of
           VList l \<Rightarrow> Inr (display_pretty_list l)
         | VStr s \<Rightarrow> Inr s))"

definition long_hint :: "string \<Rightarrow> string" where
  "long_hint prop =
     ''... <comment>(use <info>-p '' @ prop @ ''</info> to see full '' @ prop @ '')</comment>''"

definition truncate_long :: "string \<Rightarrow> string \<Rightarrow> string" where
  "truncate_long prop items =
     (if prop \<in> set LONG_PROPERTIES \<and> length items > MAX_DISPLAY_LINE_LENGTH
      then take MAX_DISPLAY_LINE_LENGTH items @ long_hint prop
      else items)"

fun build_rows_from_metadata :: "metadata \<Rightarrow> error + string list list" where
  "build_rows_from_metadata [] = Inr []"
| "build_rows_from_metadata ((prop, items) # data) =
     (if prop \<in> set SKIP_PROPERTIES then build_rows_from_metadata data
      else
        (case row_items prop items of
           Inl e \<Rightarrow> Inl e
         | Inr s \<Rightarrow>
             (case build_rows_from_metadata data of
                Inl e \<Rightarrow> Inl e
              | Inr rows \<Rightarrow>
                  Inr ([''<info>'' @ prettify prop @ ''</>'',
                        '' : <b>'' @ truncate_long prop s @ ''</>''] # rows))))"

text \<open>
  The three f-strings of \<^verbatim>\<open>display_normal\<close>: the header of a property, an element
  of a list value and a scalar value.
\<close>

definition header_line :: "string \<Rightarrow> string" where
  "header_line key = ''<b><info>'' @ prettify key @ ''</info></b>''"

definition item_line :: "string \<Rightarrow> string" where
  "item_line item = ''<c1> - '' @ item @ ''</c1>''"

definition scalar_line :: "string \<Rightarrow> string" where
  "scalar_line v = ''<c2> '' @ v @ ''</c2>''"

definition display_value :: "pyval \<Rightarrow> io \<Rightarrow> io" where
  "display_value v i =
     (case v of
        VList l \<Rightarrow> fold (\<lambda>item. line (item_line item)) l i
      | VStr s \<Rightarrow> line (scalar_line s) i)"

fun display_normal :: "metadata \<Rightarrow> string list \<Rightarrow> io \<Rightarrow> io" where
  "display_normal [] props i = i"
| "display_normal ((key, v) # data) props i =
     (if key \<in> set SKIP_PROPERTIES \<and> props = [] then display_normal data props i
      else if props \<noteq> [] \<and> key \<notin> set props then display_normal data props i
      else display_normal data props (line [] (display_value v (line (header_line key) i))))"

text \<open>
  The loop of \<^verbatim>\<open>handle\<close> over the requested properties: \<open>Inl prop\<close> at the first
  property that the metadata does not have, else the selected record.
\<close>

fun select_properties :: "string list \<Rightarrow> metadata \<Rightarrow> metadata \<Rightarrow> string + metadata" where
  "select_properties [] metadata display_metadata = Inr display_metadata"
| "select_properties (prop # props) metadata display_metadata =
     (case map_of metadata prop of
        None \<Rightarrow> Inl prop
      | Some v \<Rightarrow> select_properties props metadata (dict_set prop v display_metadata))"

text \<open>
  \<^verbatim>\<open>handle\<close> returns the exit code, or the exception that leaves it, and the output.
\<close>

definition handle :: "env \<Rightarrow> options \<Rightarrow> io \<Rightarrow> (error + nat) \<times> io" where
  "handle e opts i =
     (case get_package_from_dependency e (dependency opts) of
        Inl ex \<Rightarrow> (Inl ex, i)
      | Inr pkg \<Rightarrow>
          (let (metadata, i1) = inspect_metadata e pkg i;
               available_properties = map fst metadata
           in if opt_list_properties opts then
                (Inr 0,
                 line (''<info>'' @ join [CHR 0x0A] (map (\<lambda>x. ''- '' @ x) available_properties)
                       @ ''</info>'')
                   (line (''<b>Available properties for <info>'' @ name pkg
                          @ ''</info> are:</b>'') i1))
              else
                (case select_properties (opt_property opts) metadata [] of
                   Inl prop \<Rightarrow>
                     (Inr 1,
                      line_error (''<error>Property '' @ [CHR 0x27] @ prop @ [CHR 0x27]
                                  @ '' not available.</error>'') i1)
                 | Inr selected \<Rightarrow>
                     (let display_metadata = (if selected = [] then metadata else selected)
                      in if opt_json opts then
                           (Inr 0, write_stderr (json_dumps e display_metadata) i1)
                         else if opt_compact opts then
                           (case build_rows_from_metadata display_metadata of
                              Inl ex \<Rightarrow> (Inl ex, i1)
                            | Inr rows \<Rightarrow> (Inr 0, render_table rows i1))
                         else (Inr 0, display_normal display_metadata (opt_property opts) i1)))))"

section \<open>Reading the output back\<close>

text \<open>
  The header of a property is the only line that \<^verbatim>\<open>display_normal\<close> writes between
  \<^verbatim>\<open><b><info>\<close> and \<^verbatim>\<open></info></b>\<close>. \<open>printed_headers\<close> collects the headers of
  an output, and \<open>header_reversal\<close> is the reversal of the specification: lower case,
  then every space replaced by an underscore.
\<close>

definition header_of :: "event \<Rightarrow> string option" where
  "header_of ev =
     (case ev of
        Line l \<Rightarrow>
          if take 9 l = ''<b><info>'' \<and> 20 \<le> length l
             \<and> drop (length l - 11) l = ''</info></b>''
          then Some (take (length l - 20) (drop 9 l))
          else None
      | _ \<Rightarrow> None)"

definition printed_headers :: "event list \<Rightarrow> string list" where
  "printed_headers evs = List.map_filter header_of evs"

definition header_reversal :: "string \<Rightarrow> string" where
  "header_reversal h = replace_char CHR '' '' CHR ''_'' (lower h)"

text \<open>A key of ASCII characters with no upper-case letter and no space.\<close>

definition plain_key :: "string \<Rightarrow> bool" where
  "plain_key k = (\<forall>c \<in> set k. (of_char c :: nat) < 128 \<and> \<not> is_upper c \<and> c \<noteq> CHR '' '')"

text \<open>Whether \<^verbatim>\<open>display_normal\<close> prints the property of a key, given the requested ones.\<close>

definition shown :: "string list \<Rightarrow> string \<Rightarrow> bool" where
  "shown props key = (if props = [] then key \<notin> set SKIP_PROPERTIES else key \<in> set props)"

text \<open>
  \<^verbatim>\<open>display_pretty_urls\<close> unpacks an element only when it has exactly one comma;
  \<open>urls_well_formed\<close> says so of every element of every list under a URL property.
\<close>

definition one_comma :: "string \<Rightarrow> bool" where
  "one_comma u = (count_list u CHR '','' = 1)"

definition urls_well_formed :: "metadata \<Rightarrow> bool" where
  "urls_well_formed data =
     list_all (\<lambda>(k, v). k \<in> set URL_PROPERTIES \<longrightarrow>
                 (case v of VList l \<Rightarrow> list_all one_comma l | VStr s \<Rightarrow> True)) data"

section \<open>Concrete environments\<close>

text \<open>
  The project and the lock data of \<^verbatim>\<open>tests/console/commands/test_inspect.py\<close>. In the
  concrete environments \<open>canonical\<close> stands for \<^verbatim>\<open>canonicalize_name\<close> (lower case, every
  run of \<^verbatim>\<open>-\<close>, \<^verbatim>\<open>_\<close> and \<^verbatim>\<open>.\<close> replaced by one \<^verbatim>\<open>-\<close>) and \<open>json_text\<close> for the
  serializer; packages are compared attribute by attribute. No theorem on all environments
  depends on them.
\<close>

fun canonical_from :: "bool \<Rightarrow> string \<Rightarrow> string" where
  "canonical_from after_sep [] = []"
| "canonical_from after_sep (c # cs) =
     (if c \<in> set ''-_.''
      then (if after_sep then canonical_from True cs else CHR ''-'' # canonical_from True cs)
      else lower_char c # canonical_from False cs)"

definition canonical :: "string \<Rightarrow> string" where
  "canonical s = canonical_from False s"

definition json_string :: "string \<Rightarrow> string" where
  "json_string s =
     [CHR 0x22]
     @ concat (map (\<lambda>c. if c = CHR 0x22 \<or> c = CHR 0x5C then [CHR 0x5C, c] else [c]) s)
     @ [CHR 0x22]"

definition json_value :: "pyval \<Rightarrow> string" where
  "json_value v =
     (case v of
        VStr s \<Rightarrow> json_string s
      | VList l \<Rightarrow> ''['' @ join '', '' (map json_string l) @ '']'')"

definition json_text :: "metadata \<Rightarrow> string" where
  "json_text m =
     ''{'' @ join '', '' (map (\<lambda>(k, v). json_string k @ '': '' @ json_value v) m) @ ''}''"

definition simple_project :: package where
  "simple_project =
     \<lparr>name = ''simple-project'', pretty_name = ''simple-project'',
      pretty_version = ''1.2.3'', description = ''Some description.''\<rparr>"

definition cachy :: package where
  "cachy =
     \<lparr>name = ''cachy'', pretty_name = ''cachy'',
      pretty_version = ''0.1.0'', description = ''Cachy package''\<rparr>"

definition pendulum :: package where
  "pendulum =
     \<lparr>name = ''pendulum'', pretty_name = ''pendulum'',
      pretty_version = ''2.0.0'', description = ''Pendulum package''\<rparr>"

definition pytest :: package where
  "pytest =
     \<lparr>name = ''pytest'', pretty_name = ''pytest'',
      pretty_version = ''3.7.3'', description = ''Pytest package''\<rparr>"

text \<open>\<^verbatim>\<open>TEST_DATA\<close>, with the version of the metadata as a string.\<close>

definition TEST_DATA :: metadata where
  "TEST_DATA =
     [(''metadata_version'', VStr ''2.1''),
      (''name'', VStr ''test-package-1''),
      (''version'', VStr ''1.2.3''),
      (''summary'', VStr ''this is a test package''),
      (''author_email'', VStr ''testauthor@email.com''),
      (''author'', VStr ''testauthor'')]"

text \<open>No distribution is installed: the first test of the file.\<close>

definition bare_env :: env where
  "bare_env =
     \<lparr>root_package = simple_project, locked_packages = [cachy, pendulum, pytest],
      pkg_eq = (=), canonicalize_name = canonical,
      from_name = (\<lambda>n. None), json_dumps = json_text\<rparr>"

text \<open>Every name has the mocked distribution of the tests, which has no entry point.\<close>

definition test_env :: env where
  "test_env =
     \<lparr>root_package = simple_project, locked_packages = [cachy, pendulum, pytest],
      pkg_eq = (=), canonicalize_name = canonical,
      from_name = (\<lambda>n. Some \<lparr>json = Some TEST_DATA, entry_points = []\<rparr>),
      json_dumps = json_text\<rparr>"

text \<open>The record that \<^verbatim>\<open>inspect_metadata\<close> gathers for the project in \<open>test_env\<close>.\<close>

definition test_record :: metadata where
  "test_record =
     [(''name'', VStr ''test-package-1''),
      (''version'', VStr ''1.2.3''),
      (''package_description'', VStr ''Some description.''),
      (''metadata_version'', VStr ''2.1''),
      (''summary'', VStr ''this is a test package''),
      (''author_email'', VStr ''testauthor@email.com''),
      (''author'', VStr ''testauthor'')]"

text \<open>
  A lock file that pins a package with the attributes of the project itself, and a
  distribution whose only project URL has a comma in its address.
\<close>

definition self_locked_env :: env where
  "self_locked_env = bare_env\<lparr>locked_packages := [cachy, simple_project]\<rparr>"

definition docs_url :: string where
  "docs_url = ''Documentation, https://example.com/docs?tags=a,b''"

definition url_env :: env where
  "url_env =
     test_env\<lparr>from_name :=
       (\<lambda>n. Some \<lparr>json = Some [(''project_url'', VList [docs_url])], entry_points = []\<rparr>)\<rparr>"

definition no_output :: io where
  "no_output = \<lparr>out = [], err = []\<rparr>"

text \<open>An invocation with no dependency argument: the three flags and the properties.\<close>

definition run_options :: "bool \<Rightarrow> bool \<Rightarrow> bool \<Rightarrow> string list \<Rightarrow> options" where
  "run_options j c l ps =
     \<lparr>dependency = None, opt_json = j, opt_compact = c, opt_list_properties = l,
      opt_property = ps\<rparr>"

text \<open>The keys of \<open>test_record\<close>, in its order.\<close>

definition test_keys :: "string list" where
  "test_keys =
     [''name'', ''version'', ''package_description'', ''metadata_version'', ''summary'',
      ''author_email'', ''author'']"

text \<open>
  A distribution whose structured metadata has a key \<^verbatim>\<open>entry_points\<close> of its own and
  no entry point, and a distribution with one entry point.
\<close>

definition empty_ep_dist :: distribution where
  "empty_ep_dist = \<lparr>json = Some [(''entry_points'', VList [])], entry_points = []\<rparr>"

definition empty_ep_env :: env where
  "empty_ep_env = test_env\<lparr>from_name := (\<lambda>n. Some empty_ep_dist)\<rparr>"

definition script_dist :: distribution where
  "script_dist =
     \<lparr>json = Some TEST_DATA,
      entry_points = [(''poetry'', ''poetry.console.application:main'')]\<rparr>"

definition script_env :: env where
  "script_env = test_env\<lparr>from_name := (\<lambda>n. Some script_dist)\<rparr>"

section \<open>Dictionaries, strings and output: lemmas\<close>

lemma dict_set_keys: "set (map fst (dict_set k v d)) = insert k (set (map fst d))"
proof (induction d)
  case Nil
  show ?case by simp
next
  case (Cons a d)
  obtain k' v' where a: "a = (k', v')" by (cases a)
  show ?case
    using Cons.IH unfolding a by (cases "k' = k") (simp_all add: insert_commute del: set_map)
qed

lemma map_of_dict_set: "map_of (dict_set k v d) = (map_of d)(k \<mapsto> v)"
  by (induction d) (auto simp: fun_eq_iff)

lemma lower_char_id: "\<not> is_upper c \<Longrightarrow> lower_char c = c"
  by (simp add: lower_char_def)

lemma lower_upper_char: "\<not> is_upper c \<Longrightarrow> lower_char (upper_char c) = c"
proof (cases "is_lower c")
  case True
  then have b: "97 \<le> (of_char c :: nat)" "(of_char c :: nat) \<le> 122"
    by (simp_all add: is_lower_def)
  then have m: "((of_char c :: nat) - 32) mod 256 = of_char c - 32" by simp
  have "65 \<le> (of_char c :: nat) - 32 \<and> (of_char c :: nat) - 32 \<le> 90"
    using b by arith
  then have "is_upper (char_of ((of_char c :: nat) - 32))"
    by (simp add: is_upper_def m)
  moreover have "char_of ((of_char c :: nat) - 32 + 32) = c"
    using b by simp
  ultimately show ?thesis using True by (simp add: upper_char_def lower_char_def m)
next
  case False
  assume "\<not> is_upper c"
  with False show ?thesis by (simp add: upper_char_def lower_char_def)
qed

lemma lower_plain: "\<forall>c\<in>set s. \<not> is_upper c \<Longrightarrow> lower s = s"
  by (induction s) (simp_all add: lower_def lower_char_id)

lemma is_upper_space: "\<not> is_upper CHR '' ''" "\<not> is_upper CHR ''_''"
  by (simp_all add: is_upper_def)

lemma replace_no_upper:
  "\<forall>c\<in>set s. \<not> is_upper c \<Longrightarrow> \<forall>c\<in>set (replace_char CHR ''_'' CHR '' '' s). \<not> is_upper c"
  by (auto simp: replace_char_def is_upper_space)

lemma lower_capitalize: "\<forall>c\<in>set s. \<not> is_upper c \<Longrightarrow> lower (capitalize s) = s"
proof (cases s)
  case Nil
  then show ?thesis by (simp add: lower_def)
next
  case (Cons a list)
  assume nu: "\<forall>c\<in>set s. \<not> is_upper c"
  then have "lower list = list" using Cons by (simp add: lower_plain)
  moreover have "lower_char (upper_char a) = a" using nu Cons by (simp add: lower_upper_char)
  ultimately show ?thesis using Cons by (simp add: lower_def)
qed

lemma replace_back:
  "CHR '' '' \<notin> set s \<Longrightarrow> replace_char CHR '' '' CHR ''_'' (replace_char CHR ''_'' CHR '' '' s) = s"
  by (induction s) (auto simp: replace_char_def)

lemma header_reversal_prettify: "plain_key k \<Longrightarrow> header_reversal (prettify k) = k"
proof -
  assume p: "plain_key k"
  then have nu: "\<forall>c\<in>set k. \<not> is_upper c" and ns: "CHR '' '' \<notin> set k"
    by (auto simp: plain_key_def)
  have "lower (capitalize (replace_char CHR ''_'' CHR '' '' k)) = replace_char CHR ''_'' CHR '' '' k"
    by (rule lower_capitalize) (rule replace_no_upper [OF nu])
  then show ?thesis using ns by (simp add: header_reversal_def prettify_def replace_back)
qed

lemma header_of_header: "header_of (Line (header_line k)) = Some (prettify k)"
  by (simp add: header_of_def header_line_def)

lemma header_of_item: "header_of (Line (item_line x)) = None"
  by (simp add: header_of_def item_line_def)

lemma header_of_scalar: "header_of (Line (scalar_line x)) = None"
  by (simp add: header_of_def scalar_line_def)

lemma header_of_blank: "header_of (Line []) = None"
  by (simp add: header_of_def)


lemma out_line: "out (line s i) = out i @ [Line s]"
  by (simp add: line_def)

lemma err_line: "err (line s i) = err i"
  by (simp add: line_def)

lemma printed_headers_append: "printed_headers (xs @ ys) = printed_headers xs @ printed_headers ys"
  by (simp add: printed_headers_def map_filter_def)

lemma printed_headers_single: "printed_headers [ev] = (case header_of ev of None \<Rightarrow> [] | Some h \<Rightarrow> [h])"
  by (simp add: printed_headers_def map_filter_def split: option.splits)

lemma headers_fold_items:
  "printed_headers (out (fold (\<lambda>item. line (item_line item)) l i)) = printed_headers (out i)"
  by (induction l arbitrary: i)
     (simp_all add: out_line printed_headers_append printed_headers_single header_of_item)

lemma headers_display_value: "printed_headers (out (display_value v i)) = printed_headers (out i)"
  by (cases v)
     (simp_all add: display_value_def headers_fold_items out_line printed_headers_append
        printed_headers_single header_of_scalar)

lemma err_display_value: "err (display_value v i) = err i"
proof (cases v)
  case (VStr s)
  then show ?thesis by (simp add: display_value_def err_line)
next
  case (VList l)
  have "err (fold (\<lambda>item. line (item_line item)) l i) = err i"
    by (induction l arbitrary: i) (simp_all add: err_line)
  then show ?thesis using VList by (simp add: display_value_def)
qed

lemma headers_display_normal:
  "printed_headers (out (display_normal data props i)) =
     printed_headers (out i) @ map prettify (filter (shown props) (map fst data))"
proof (induction data arbitrary: i)
  case Nil
  show ?case by simp
next
  case (Cons a data)
  obtain key v where a: "a = (key, v)" by (cases a)
  show ?case
  proof (cases "shown props key")
    case True
    then have "display_normal (a # data) props i =
        display_normal data props (line [] (display_value v (line (header_line key) i)))"
      unfolding a by (auto simp: shown_def split: if_splits)
    then show ?thesis using True
      by (simp add: a Cons.IH out_line headers_display_value printed_headers_append
            printed_headers_single header_of_header header_of_blank)
  next
    case False
    then have "display_normal (a # data) props i = display_normal data props i"
      unfolding a by (auto simp: shown_def split: if_splits)
    then show ?thesis using False by (simp add: a Cons.IH)
  qed
qed

lemma err_display_normal: "err (display_normal data props i) = err i"
  by (induction data props i rule: display_normal.induct)
     (simp_all add: err_line err_display_value)

lemma printed_headers_no_output: "printed_headers (out no_output) = []"
  by (simp add: no_output_def printed_headers_def map_filter_def)

lemma inspect_metadata_test_env:
  "inspect_metadata test_env simple_project no_output = (test_record, no_output)"
  by (simp add: inspect_metadata_def test_env_def seed_metadata_def simple_project_def
        TEST_DATA_def dict_update_def get_entry_points_def test_record_def)

section \<open>Splitting and the rows of the compact table: lemmas\<close>

lemma split_on_nonempty: "split_on sep s \<noteq> []"
  by (induction s) (auto split: list.splits)

lemma length_split_on: "length (split_on sep s) = Suc (count_list s sep)"
  by (induction s) (auto split: list.splits simp: split_on_nonempty)

lemma unpack_pair_ok: "(\<exists>p. unpack_pair parts = Inr p) \<longleftrightarrow> length parts = 2"
  by (auto simp: unpack_pair_def split: list.splits)

lemma unpack_split_ok: "(\<exists>p. unpack_pair (split_on CHR '','' u) = Inr p) \<longleftrightarrow> one_comma u"
  using unpack_pair_ok [of "split_on CHR '','' u"]
  by (simp only: length_split_on one_comma_def) auto

lemma pretty_urls_ok: "(\<exists>res. pretty_urls urls = Inr res) \<longleftrightarrow> list_all one_comma urls"
proof (induction urls)
  case Nil
  show ?case by simp
next
  case (Cons u urls)
  show ?case
  proof (cases "unpack_pair (split_on CHR '','' u)")
    case (Inl e)
    then have "\<not> one_comma u" using unpack_split_ok [of u] by auto
    then show ?thesis using Inl by simp
  next
    case (Inr p)
    then have "one_comma u" using unpack_split_ok [of u] by auto
    then show ?thesis using Inr Cons.IH by (cases p) (auto split: sum.splits)
  qed
qed

lemma display_pretty_urls_ok:
  "(\<exists>r. display_pretty_urls urls = Inr r) \<longleftrightarrow> list_all one_comma urls"
  using pretty_urls_ok [of urls] by (auto simp: display_pretty_urls_def split: sum.splits)

lemma split_on_one_comma:
  assumes "CHR '','' \<notin> set a" "CHR '','' \<notin> set b"
  shows "split_on CHR '','' (a @ CHR '','' # b) = [a, b]"
proof -
  have b: "split_on CHR '','' b = [b]" using assms(2) by (induction b) auto
  show ?thesis using assms(1) by (induction a) (auto simp: b)
qed

lemma row_items_ok:
  "(\<exists>s. row_items prop v = Inr s) \<longleftrightarrow>
     (prop \<in> set URL_PROPERTIES \<longrightarrow> (case v of VList l \<Rightarrow> list_all one_comma l | VStr s \<Rightarrow> True))"
  by (cases v) (auto simp: row_items_def display_pretty_urls_ok)

lemma build_rows_ok:
  "urls_well_formed data \<Longrightarrow> \<exists>rows. build_rows_from_metadata data = Inr rows"
proof (induction data)
  case Nil
  show ?case by simp
next
  case (Cons a data)
  obtain k v where a: "a = (k, v)" by (cases a)
  from Cons.prems have w: "urls_well_formed data"
    and h: "k \<in> set URL_PROPERTIES \<longrightarrow> (case v of VList l \<Rightarrow> list_all one_comma l | VStr s \<Rightarrow> True)"
    by (simp_all add: urls_well_formed_def a)
  from h obtain s where s: "row_items k v = Inr s" using row_items_ok [of k v] by blast
  from Cons.IH [OF w] obtain rows where r: "build_rows_from_metadata data = Inr rows" by blast
  show ?case by (simp add: a s r)
qed

lemma prettify_license: "prettify ''license'' = ''License''"
  by code_simp

lemma row_items_license: "row_items ''license'' (VStr s) = Inr s"
  by (simp add: row_items_def URL_PROPERTIES_def)

lemma truncate_long_license:
  "truncate_long ''license'' s =
     (if 79 < length s
      then take 79 s @ ''... <comment>(use <info>-p license</info> to see full license)</comment>''
      else s)"
  by (simp add: truncate_long_def LONG_PROPERTIES_def MAX_DISPLAY_LINE_LENGTH_def long_hint_def)

lemma license_not_skipped: "''license'' \<notin> set SKIP_PROPERTIES"
  by (simp add: SKIP_PROPERTIES_def)

lemma build_rows_member:
  assumes "build_rows_from_metadata data = Inr rows" "(prop, v) \<in> set data"
    "prop \<notin> set SKIP_PROPERTIES"
  shows "\<exists>s. row_items prop v = Inr s \<and>
           [''<info>'' @ prettify prop @ ''</>'', '' : <b>'' @ truncate_long prop s @ ''</>''] \<in> set rows"
  using assms
proof (induction data arbitrary: rows)
  case Nil
  then show ?case by simp
next
  case (Cons a data)
  obtain k w where a: "a = (k, w)" by (cases a)
  show ?case
  proof (cases "k \<in> set SKIP_PROPERTIES")
    case True
    then have "build_rows_from_metadata data = Inr rows" "(prop, v) \<in> set data"
      using Cons.prems a by auto
    then show ?thesis using Cons.IH Cons.prems(3) by blast
  next
    case False
    then obtain s rs where s: "row_items k w = Inr s" and rs: "build_rows_from_metadata data = Inr rs"
      and rows: "rows = [''<info>'' @ prettify k @ ''</>'', '' : <b>'' @ truncate_long k s @ ''</>''] # rs"
      using Cons.prems(1) a by (auto split: sum.splits)
    show ?thesis
    proof (cases "(prop, v) = (k, w)")
      case True
      then show ?thesis using s rows by auto
    next
      case False
      then have "(prop, v) \<in> set data" using Cons.prems(2) a by auto
      from Cons.IH [OF rs this Cons.prems(3)] show ?thesis using rows by auto
    qed
  qed
qed

lemma prettify_known:
  "prettify ''name'' = ''Name''"
  "prettify ''version'' = ''Version''"
  "prettify ''package_description'' = ''Package description''"
  "prettify ''metadata_version'' = ''Metadata version''"
  "prettify ''summary'' = ''Summary''"
  "prettify ''author_email'' = ''Author email''"
  "prettify ''author'' = ''Author''"
  "prettify ''project_url'' = ''Project url''"
  by code_simp+

lemma display_pretty_urls_single:
  assumes "CHR '','' \<notin> set a" "CHR '','' \<notin> set b"
  shows "display_pretty_urls [a @ CHR '','' # b] = Inr (''<c1>'' @ a @ ''</> -'' @ b)"
  by (simp add: display_pretty_urls_def split_on_one_comma [OF assms] unpack_pair_def)

section \<open>The command as a whole: lemmas\<close>

lemma handle_resolved:
  assumes "get_package_from_dependency e (dependency opts) = Inr pkg"
    and "inspect_metadata e pkg i = (metadata, i1)"
  shows "handle e opts i =
     (if opt_list_properties opts then
        (Inr 0,
         line (''<info>'' @ join [CHR 0x0A] (map (\<lambda>x. ''- '' @ x) (map fst metadata))
               @ ''</info>'')
           (line (''<b>Available properties for <info>'' @ name pkg @ ''</info> are:</b>'') i1))
      else
        (case select_properties (opt_property opts) metadata [] of
           Inl prop \<Rightarrow>
             (Inr 1,
              line_error (''<error>Property '' @ [CHR 0x27] @ prop @ [CHR 0x27]
                          @ '' not available.</error>'') i1)
         | Inr selected \<Rightarrow>
             (if opt_json opts then
                (Inr 0, write_stderr (json_dumps e (if selected = [] then metadata else selected)) i1)
              else if opt_compact opts then
                (case build_rows_from_metadata (if selected = [] then metadata else selected) of
                   Inl ex \<Rightarrow> (Inl ex, i1)
                 | Inr rows \<Rightarrow> (Inr 0, render_table rows i1))
              else (Inr 0, display_normal (if selected = [] then metadata else selected)
                             (opt_property opts) i1))))"
  by (simp only: handle_def assms sum.case prod.case Let_def)

lemma handle_unresolved:
  "get_package_from_dependency e (dependency opts) = Inl ex \<Longrightarrow> handle e opts i = (Inl ex, i)"
  by (simp add: handle_def)

lemma resolve_test_env_root: "get_package_from_dependency test_env None = Inr simple_project"
  by (simp add: get_package_from_dependency_def test_env_def)

lemma inspect_metadata_err: "err (snd (inspect_metadata e p i)) = err i"
  by (simp add: inspect_metadata_def Let_def err_line split: option.splits prod.splits)

lemma inspect_metadata_found_out:
  "from_name e (name p) = Some d \<Longrightarrow> json d = Some j \<Longrightarrow> snd (inspect_metadata e p i) = i"
  by (simp add: inspect_metadata_def Let_def)

lemma set_dict_set: "set (dict_set k v d) \<subseteq> insert (k, v) (set d)"
  by (induction d) (auto split: if_splits)

lemma distinct_dict_set: "distinct (map fst d) \<Longrightarrow> distinct (map fst (dict_set k v d))"
proof (induction d)
  case Nil
  show ?case by simp
next
  case (Cons a d)
  obtain k' v' where a: "a = (k', v')" by (cases a)
  from Cons.prems have d: "distinct (map fst d)" and n: "k' \<notin> set (map fst d)"
    by (simp_all add: a)
  show ?case
  proof (cases "k' = k")
    case True
    then show ?thesis using d n by (simp add: a)
  next
    case False
    have "k' \<notin> set (map fst (dict_set k v d))"
      unfolding dict_set_keys using n False by simp
    then show ?thesis using False Cons.IH [OF d] by (simp add: a)
  qed
qed

lemma dict_set_not_empty: "dict_set k v d \<noteq> []"
  by (cases d) (auto split: if_splits)

lemma select_fail:
  "find (\<lambda>p. p \<notin> set (map fst metadata)) props = Some p \<Longrightarrow>
     select_properties props metadata acc = Inl p"
proof (induction props arbitrary: acc)
  case Nil
  then show ?case by simp
next
  case (Cons q props)
  show ?case
  proof (cases "map_of metadata q")
    case None
    then have "q \<notin> set (map fst metadata)" by (simp add: map_of_eq_None_iff)
    then show ?thesis using Cons.prems None by simp
  next
    case (Some v)
    then have "q \<in> set (map fst metadata)" by (metis map_of_eq_None_iff option.distinct(1) set_map)
    then show ?thesis using Cons Some by simp
  qed
qed

lemma select_total:
  "set props \<subseteq> set (map fst metadata) \<Longrightarrow>
     \<exists>sel. select_properties props metadata acc = Inr sel"
proof (induction props arbitrary: acc)
  case Nil
  show ?case by simp
next
  case (Cons q props)
  from Cons.prems have "q \<in> set (map fst metadata)" by simp
  then obtain v where v: "map_of metadata q = Some v"
    by (metis map_of_eq_None_iff not_Some_eq set_map)
  from Cons.prems have "set props \<subseteq> set (map fst metadata)" by simp
  from Cons.IH [OF this, of "dict_set q v acc"] show ?case using v by simp
qed

lemma select_subset:
  "select_properties props metadata acc = Inr sel \<Longrightarrow> set sel \<subseteq> set acc \<union> set metadata"
proof (induction props arbitrary: acc)
  case Nil
  then show ?case by simp
next
  case (Cons q props)
  from Cons.prems obtain v where v: "map_of metadata q = Some v"
    and s: "select_properties props metadata (dict_set q v acc) = Inr sel"
    by (auto split: option.splits)
  have "(q, v) \<in> set metadata" using v by (rule map_of_SomeD)
  then show ?case using Cons.IH [OF s] set_dict_set [of q v acc] by auto
qed

lemma select_keys:
  "select_properties props metadata acc = Inr sel \<Longrightarrow>
     set (map fst sel) = set (map fst acc) \<union> set props"
proof (induction props arbitrary: acc)
  case Nil
  then show ?case by simp
next
  case (Cons q props)
  from Cons.prems obtain v where v: "map_of metadata q = Some v"
    and s: "select_properties props metadata (dict_set q v acc) = Inr sel"
    by (auto split: option.splits)
  show ?case unfolding Cons.IH [OF s] dict_set_keys by auto
qed

lemma select_distinct:
  "select_properties props metadata acc = Inr sel \<Longrightarrow> distinct (map fst acc) \<Longrightarrow>
     distinct (map fst sel)"
proof (induction props arbitrary: acc)
  case Nil
  then show ?case by simp
next
  case (Cons q props)
  from Cons.prems obtain v where v: "map_of metadata q = Some v"
    and s: "select_properties props metadata (dict_set q v acc) = Inr sel"
    by (auto split: option.splits)
  show ?case by (rule Cons.IH [OF s distinct_dict_set [OF Cons.prems(2)]])
qed

lemma select_map_of:
  "select_properties props metadata acc = Inr sel \<Longrightarrow>
     map_of sel k = (if k \<in> set props then map_of metadata k else map_of acc k)"
proof (induction props arbitrary: acc)
  case Nil
  then show ?case by simp
next
  case (Cons q props)
  from Cons.prems obtain v where v: "map_of metadata q = Some v"
    and s: "select_properties props metadata (dict_set q v acc) = Inr sel"
    by (auto split: option.splits)
  show ?case unfolding Cons.IH [OF s] using v by (simp add: map_of_dict_set)
qed

lemma select_empty:
  "select_properties props metadata [] = Inr sel \<Longrightarrow> sel = [] \<longleftrightarrow> props = []"
proof (cases props)
  case Nil
  assume "select_properties props metadata [] = Inr sel"
  then show ?thesis using Nil by simp
next
  case (Cons q ps)
  assume "select_properties props metadata [] = Inr sel"
  from select_keys [OF this] have "q \<in> set (map fst sel)" using Cons by simp
  then show ?thesis using Cons by auto
qed

lemma urls_well_formed_subset:
  "urls_well_formed metadata \<Longrightarrow> set sel \<subseteq> set metadata \<Longrightarrow> urls_well_formed sel"
  by (auto simp: urls_well_formed_def list_all_iff)

lemma missing_has_first:
  "\<not> set props \<subseteq> S \<Longrightarrow> \<exists>p. find (\<lambda>p. p \<notin> S) props = Some p"
  by (induction props) auto

lemma handle_missing:
  assumes "get_package_from_dependency e (dependency opts) = Inr pkg"
    and "inspect_metadata e pkg i = (metadata, i1)"
    and "\<not> opt_list_properties opts"
    and "select_properties (opt_property opts) metadata [] = Inl prop"
  shows "handle e opts i =
           (Inr 1,
            line_error (''<error>Property '' @ [CHR 0x27] @ prop @ [CHR 0x27]
                        @ '' not available.</error>'') i1)"
  by (simp only: handle_resolved [OF assms(1,2)] assms(3,4) if_False sum.case)

lemma handle_render:
  assumes "get_package_from_dependency e (dependency opts) = Inr pkg"
    and "inspect_metadata e pkg i = (metadata, i1)"
    and "\<not> opt_list_properties opts"
    and "select_properties (opt_property opts) metadata [] = Inr selected"
  shows "handle e opts i =
           (if opt_json opts then
              (Inr 0, write_stderr (json_dumps e (if selected = [] then metadata else selected)) i1)
            else if opt_compact opts then
              (case build_rows_from_metadata (if selected = [] then metadata else selected) of
                 Inl ex \<Rightarrow> (Inl ex, i1)
               | Inr rows \<Rightarrow> (Inr 0, render_table rows i1))
            else (Inr 0, display_normal (if selected = [] then metadata else selected)
                           (opt_property opts) i1))"
  by (simp only: handle_resolved [OF assms(1,2)] assms(3,4) if_False sum.case)

lemma handle_list_properties:
  assumes "get_package_from_dependency e (dependency opts) = Inr pkg"
    and "inspect_metadata e pkg i = (metadata, i1)"
    and "opt_list_properties opts"
  shows "handle e opts i =
        (Inr 0,
         line (''<info>'' @ join [CHR 0x0A] (map (\<lambda>x. ''- '' @ x) (map fst metadata))
               @ ''</info>'')
           (line (''<b>Available properties for <info>'' @ name pkg @ ''</info> are:</b>'') i1))"
  by (simp only: handle_resolved [OF assms(1,2)] assms(3) if_True)

lemma handle_first_missing:
  assumes "get_package_from_dependency e (dependency opts) = Inr pkg"
    and "inspect_metadata e pkg i = (metadata, i1)"
    and "\<not> opt_list_properties opts"
    and p: "find (\<lambda>p. p \<notin> set (map fst metadata)) (opt_property opts) = Some p"
  shows "handle e opts i =
          (Inr 1,
           i1\<lparr>err := err i @ [Line (''<error>Property '' @ [CHR 0x27] @ p @ [CHR 0x27]
                                      @ '' not available.</error>'')]\<rparr>)"
proof -
  have e1: "err i1 = err i"
    using inspect_metadata_err [of e pkg i] assms(2) by simp
  have s: "select_properties (opt_property opts) metadata [] = Inl p"
    by (rule select_fail [OF p])
  show ?thesis
    unfolding handle_missing [OF assms(1,2,3) s] line_error_def e1 ..
qed

lemma handle_all_present:
  assumes "get_package_from_dependency e (dependency opts) = Inr pkg"
    and "inspect_metadata e pkg i = (metadata, i1)"
    and "\<not> opt_list_properties opts"
    and a: "set (opt_property opts) \<subseteq> set (map fst metadata)"
    and b: "opt_json opts \<or> \<not> opt_compact opts \<or> urls_well_formed metadata"
  shows "fst (handle e opts i) = Inr 0"
proof -
  from a obtain sel where s: "select_properties (opt_property opts) metadata [] = Inr sel"
    using select_total [of "opt_property opts" metadata "[]"] by auto
  have ss: "set sel \<subseteq> set metadata"
    using select_subset [OF s] by simp
  note h = handle_render [OF assms(1,2,3) s]
  show ?thesis
  proof (cases "opt_json opts")
    case True
    then show ?thesis unfolding h by (simp only: if_True fst_conv)
  next
    case nj: False
    show ?thesis
    proof (cases "opt_compact opts")
      case False
      then show ?thesis unfolding h using nj by (simp only: if_False fst_conv)
    next
      case True
      with b nj have w: "urls_well_formed metadata" by simp
      have "urls_well_formed (if sel = [] then metadata else sel)"
        using w ss urls_well_formed_subset [of metadata sel] by simp
      then obtain rows where "build_rows_from_metadata (if sel = [] then metadata else sel) = Inr rows"
        using build_rows_ok by auto
      then show ?thesis unfolding h using nj True by (simp only: if_False if_True sum.case fst_conv)
    qed
  qed
qed

lemma resolve_test_env_run:
  "get_package_from_dependency test_env (dependency (run_options j c l ps)) = Inr simple_project"
  by (simp add: run_options_def resolve_test_env_root)

lemma json_dumps_test_env: "json_dumps test_env = json_text"
  by (simp add: test_env_def)

lemma dict_update_keys:
  "set (map fst (dict_update d other)) = set (map fst d) \<union> set (map fst other)"
  unfolding dict_update_def
proof (induction other arbitrary: d)
  case Nil
  show ?case by simp
next
  case (Cons a other)
  obtain k v where a: "a = (k, v)" by (cases a)
  have "set (map fst (fold (\<lambda>(k, v). dict_set k v) other (dict_set k v d))) =
          set (map fst (dict_set k v d)) \<union> set (map fst other)"
    by (rule Cons.IH)
  then show ?case unfolding dict_set_keys by (simp add: a del: set_map)
qed

lemma seed_keys: "set (map fst (seed_metadata p)) = {''name'', ''version'', ''package_description''}"
  by (simp add: seed_metadata_def) 

lemma inspect_metadata_found:
  assumes "from_name e (name p) = Some d"
  shows "fst (inspect_metadata e p i) =
     (let m = (case json d of Some j \<Rightarrow> dict_update (seed_metadata p) j | None \<Rightarrow> seed_metadata p)
      in if get_entry_points d \<noteq> [] then dict_set ''entry_points'' (VList (get_entry_points d)) m
         else m)"
  using assms by (cases "json d") (simp_all add: inspect_metadata_def Let_def)

lemma list_properties_ignores_flags:
  assumes "opt_list_properties opts"
  shows "handle e opts i = handle e (opts\<lparr>opt_json := j, opt_compact := c, opt_property := ps\<rparr>) i"
proof (cases "get_package_from_dependency e (dependency opts)")
  case (Inl ex)
  then have "get_package_from_dependency e
               (dependency (opts\<lparr>opt_json := j, opt_compact := c, opt_property := ps\<rparr>)) = Inl ex"
    by simp
  then show ?thesis using Inl by (simp only: handle_unresolved)
next
  case (Inr pkg)
  then have r: "get_package_from_dependency e
               (dependency (opts\<lparr>opt_json := j, opt_compact := c, opt_property := ps\<rparr>)) = Inr pkg"
    by simp
  have l: "opt_list_properties (opts\<lparr>opt_json := j, opt_compact := c, opt_property := ps\<rparr>)"
    using assms by simp
  have m: "inspect_metadata e pkg i = (fst (inspect_metadata e pkg i), snd (inspect_metadata e pkg i))"
    by simp
  show ?thesis
    by (simp only: handle_list_properties [OF Inr m assms] handle_list_properties [OF r m l])
qed

lemma json_ignores_compact:
  assumes "\<not> opt_list_properties opts" "opt_json opts"
  shows "handle e opts i = handle e (opts\<lparr>opt_compact := c\<rparr>) i"
proof (cases "get_package_from_dependency e (dependency opts)")
  case (Inl ex)
  then have "get_package_from_dependency e (dependency (opts\<lparr>opt_compact := c\<rparr>)) = Inl ex"
    by simp
  then show ?thesis using Inl by (simp only: handle_unresolved)
next
  case (Inr pkg)
  then have r: "get_package_from_dependency e (dependency (opts\<lparr>opt_compact := c\<rparr>)) = Inr pkg"
    by simp
  have l: "\<not> opt_list_properties (opts\<lparr>opt_compact := c\<rparr>)"
    using assms(1) by simp
  have j: "opt_json (opts\<lparr>opt_compact := c\<rparr>)"
    using assms(2) by simp
  have m: "inspect_metadata e pkg i = (fst (inspect_metadata e pkg i), snd (inspect_metadata e pkg i))"
    by simp
  show ?thesis
  proof (cases "select_properties (opt_property opts) (fst (inspect_metadata e pkg i)) []")
    case (Inl missing)
    then have "select_properties (opt_property (opts\<lparr>opt_compact := c\<rparr>))
                 (fst (inspect_metadata e pkg i)) [] = Inl missing"
      by simp
    from handle_missing [OF Inr m assms(1) Inl] handle_missing [OF r m l this]
    show ?thesis by simp
  next
    case sel: (Inr selected)
    then have "select_properties (opt_property (opts\<lparr>opt_compact := c\<rparr>))
                 (fst (inspect_metadata e pkg i)) [] = Inr selected"
      by simp
    from handle_render [OF Inr m assms(1) sel] handle_render [OF r m l this]
    show ?thesis using assms(2) j by (simp only: if_True)
  qed
qed

lemma handle_json:
  assumes "get_package_from_dependency e (dependency opts) = Inr pkg"
    and "\<not> opt_list_properties opts"
    and "opt_json opts"
    and "set (opt_property opts) \<subseteq> set (map fst (fst (inspect_metadata e pkg i)))"
  shows "\<exists>dm. handle e opts i =
                (Inr 0, (snd (inspect_metadata e pkg i))\<lparr>err := err i @ [Write (json_dumps e dm)]\<rparr>)
           \<and> (opt_property opts = [] \<longrightarrow> dm = fst (inspect_metadata e pkg i))
           \<and> (opt_property opts \<noteq> [] \<longrightarrow>
                set (map fst dm) = set (opt_property opts) \<and> distinct (map fst dm)
                \<and> (\<forall>k \<in> set (opt_property opts).
                      map_of dm k = map_of (fst (inspect_metadata e pkg i)) k))"
proof -
  define metadata where "metadata = fst (inspect_metadata e pkg i)"
  define i1 where "i1 = snd (inspect_metadata e pkg i)"
  have m: "inspect_metadata e pkg i = (metadata, i1)"
    by (simp add: metadata_def i1_def)
  from assms(4) obtain sel where s: "select_properties (opt_property opts) metadata [] = Inr sel"
    using select_total [of "opt_property opts" metadata "[]"] by (auto simp: metadata_def)
  define dm where "dm = (if sel = [] then metadata else sel)"
  have e1: "err i1 = err i"
    using inspect_metadata_err [of e pkg i] by (simp add: i1_def)
  have h: "handle e opts i = (Inr 0, i1\<lparr>err := err i @ [Write (json_dumps e dm)]\<rparr>)"
    unfolding handle_render [OF assms(1) m assms(2) s] dm_def write_stderr_def e1
    using assms(3) by (simp only: if_True)
  have a: "opt_property opts = [] \<longrightarrow> dm = metadata"
    using select_empty [OF s] by (simp add: dm_def)
  have b: "opt_property opts \<noteq> [] \<longrightarrow>
                set (map fst dm) = set (opt_property opts) \<and> distinct (map fst dm)
                \<and> (\<forall>k \<in> set (opt_property opts). map_of dm k = map_of metadata k)"
  proof
    assume "opt_property opts \<noteq> []"
    then have d: "dm = sel" using select_empty [OF s] by (simp add: dm_def)
    have "set (map fst sel) = set (opt_property opts)"
      using select_keys [OF s] by simp
    moreover have "distinct (map fst sel)"
      using select_distinct [OF s] by simp
    moreover have "\<forall>k \<in> set (opt_property opts). map_of sel k = map_of metadata k"
      using select_map_of [OF s] by simp
    ultimately show "set (map fst dm) = set (opt_property opts) \<and> distinct (map fst dm)
                \<and> (\<forall>k \<in> set (opt_property opts). map_of dm k = map_of metadata k)"
      unfolding d by simp
  qed
  show ?thesis
    unfolding metadata_def [symmetric] i1_def [symmetric]
    by (rule exI [of _ dm], intro conjI, rule h, rule a, rule b)
qed

section \<open>The tests of the repository\<close>

text \<open>
  The model gives the output that \<^verbatim>\<open>tests/console/commands/test_inspect.py\<close> expects,
  before cleo removes the tags: the run with no option, the compact table, and the run with
  no installed distribution.
\<close>

lemma test_no_flags:
  "handle test_env (run_options False False False []) no_output =
     (Inr 0,
      \<lparr>out = [Line ''<b><info>Name</info></b>'', Line ''<c2> test-package-1</c2>'', Line [],
              Line ''<b><info>Version</info></b>'', Line ''<c2> 1.2.3</c2>'', Line [],
              Line ''<b><info>Package description</info></b>'',
              Line ''<c2> Some description.</c2>'', Line [],
              Line ''<b><info>Author email</info></b>'',
              Line ''<c2> testauthor@email.com</c2>'', Line [],
              Line ''<b><info>Author</info></b>'', Line ''<c2> testauthor</c2>'', Line []],
       err = []\<rparr>)"
  unfolding handle_resolved [OF resolve_test_env_run inspect_metadata_test_env]
  by (simp add: run_options_def test_record_def SKIP_PROPERTIES_def no_output_def line_def
        display_value_def header_line_def scalar_line_def prettify_known)

lemma test_compact:
  "handle test_env (run_options False True False []) no_output =
     (Inr 0,
      \<lparr>out = [Table [[''<info>Name</>'', '' : <b>test-package-1</>''],
                     [''<info>Version</>'', '' : <b>1.2.3</>''],
                     [''<info>Package description</>'', '' : <b>Some description.</>''],
                     [''<info>Author email</>'', '' : <b>testauthor@email.com</>''],
                     [''<info>Author</>'', '' : <b>testauthor</>'']]],
       err = []\<rparr>)"
  unfolding handle_resolved [OF resolve_test_env_run inspect_metadata_test_env]
  by (simp add: run_options_def test_record_def SKIP_PROPERTIES_def no_output_def
        render_table_def row_items_def URL_PROPERTIES_def truncate_long_def LONG_PROPERTIES_def
        prettify_known)

lemma test_basic:
  "handle bare_env (run_options False False False []) no_output =
     (Inr 0,
      \<lparr>out = [Line ''<warning>Could not find package metadata for name: simple-project: showing basic info</>'',
              Line ''<b><info>Name</info></b>'', Line ''<c2> simple-project</c2>'', Line [],
              Line ''<b><info>Version</info></b>'', Line ''<c2> 1.2.3</c2>'', Line [],
              Line ''<b><info>Package description</info></b>'',
              Line ''<c2> Some description.</c2>'', Line []],
       err = []\<rparr>)"
  by (simp add: handle_def run_options_def get_package_from_dependency_def bare_env_def
        inspect_metadata_def seed_metadata_def simple_project_def line_def SKIP_PROPERTIES_def
        no_output_def display_value_def header_line_def scalar_line_def prettify_known)

section \<open>Package resolution\<close>

text \<open>
  What \<^verbatim>\<open>_get_package_from_dependency\<close> returns in each case. A locked package that
  \<^verbatim>\<open>==\<close> holds equal to the project is reported as not found.
\<close>

lemma canonical_simple_project: "canonical ''simple-project'' = ''simple-project''"
  by code_simp

lemma resolve_absent:
  "dep = None \<or> dep = Some [] \<Longrightarrow> get_package_from_dependency e dep = Inr (root_package e)"
  by (auto simp: get_package_from_dependency_def)

lemma resolve_no_match:
  assumes "d \<noteq> []"
    and "find (\<lambda>locked. name locked = canonicalize_name e d) (locked_packages e) = None"
    and "pkg_eq e (root_package e) (root_package e)"
  shows "get_package_from_dependency e (Some d) =
           Inl (ValueError (''Package '' @ [CHR 0x27] @ d @ [CHR 0x27] @ '' not found''))"
  using assms by (simp add: get_package_from_dependency_def)

lemma resolve_match:
  assumes "d \<noteq> []"
    and "find (\<lambda>locked. name locked = canonicalize_name e d) (locked_packages e) = Some p"
  shows "get_package_from_dependency e (Some d) =
           (if pkg_eq e p (root_package e)
            then Inl (ValueError (''Package '' @ [CHR 0x27] @ d @ [CHR 0x27] @ '' not found''))
            else Inr p)"
  using assms by (simp add: get_package_from_dependency_def)

lemma canonical_names:
  "canonical ''Pendulum'' = ''pendulum''"
  "canonical ''requests'' = ''requests''"
  by code_simp+

lemma resolve_locked_name:
  "get_package_from_dependency test_env (Some ''Pendulum'') = Inr pendulum"
  "get_package_from_dependency test_env (Some ''requests'') =
     Inl (ValueError (''Package '' @ [CHR 0x27] @ ''requests'' @ [CHR 0x27] @ '' not found''))"
  by (simp_all add: get_package_from_dependency_def test_env_def canonical_names Let_def
        cachy_def pendulum_def pytest_def simple_project_def)

text \<open>
  Claim C2 says that a non-empty name resolves to the first locked package of that
  canonical name. The code does not do so when that package compares equal to the project:
  with a lock file that pins \<^verbatim>\<open>simple-project 1.2.3\<close>, the project itself, the name
  \<^verbatim>\<open>simple-project\<close> has a match in the locked packages and the result is the
  \<^verbatim>\<open>ValueError\<close> "Package 'simple-project' not found".
\<close>

theorem resolve_locked_equal_to_root:
  "find (\<lambda>locked. name locked = canonicalize_name self_locked_env ''simple-project'')
      (locked_packages self_locked_env) = Some simple_project
   \<and> get_package_from_dependency self_locked_env (Some ''simple-project'') =
       Inl (ValueError (''Package '' @ [CHR 0x27] @ ''simple-project'' @ [CHR 0x27] @ '' not found''))"
  by (simp add: get_package_from_dependency_def self_locked_env_def bare_env_def
        canonical_simple_project simple_project_def cachy_def)

section \<open>Metadata gathering\<close>

text \<open>
  Claim C3. For every package whose installed distribution is not found by the metadata
  provider, \<^verbatim>\<open>inspect_metadata\<close> writes the warning "Could not find package metadata" to
  standard output, raises nothing and returns exactly the seeded record of three keys:
  \<^verbatim>\<open>name\<close> is the pretty name, \<^verbatim>\<open>version\<close> the pretty version and
  \<^verbatim>\<open>package_description\<close> the description of the package.
\<close>

theorem inspect_metadata_not_found:
  assumes "from_name e (name p) = None"
  shows "inspect_metadata e p i =
    ([(''name'', VStr (pretty_name p)),
      (''version'', VStr (pretty_version p)),
      (''package_description'', VStr (description p))],
     i\<lparr>out := out i @ [Line (''<warning>Could not find package metadata for name: ''
                                @ name p @ '': showing basic info</>'')]\<rparr>)"
  using assms by (simp add: inspect_metadata_def seed_metadata_def line_def)

theorem inspect_metadata_not_found_witness:
  "from_name bare_env (name simple_project) = None \<and>
   inspect_metadata bare_env simple_project no_output =
     ([(''name'', VStr ''simple-project''),
       (''version'', VStr ''1.2.3''),
       (''package_description'', VStr ''Some description.'')],
      \<lparr>out = [Line ''<warning>Could not find package metadata for name: simple-project: showing basic info</>''],
       err = []\<rparr>)"
proof -
  have h: "from_name bare_env (name simple_project) = None"
    by (simp add: bare_env_def)
  show ?thesis
    using h inspect_metadata_not_found [OF h, of no_output]
    by (simp add: simple_project_def no_output_def)
qed

text \<open>
  Claim C9, as amended. For every package whose distribution is found: when at least one
  entry point exists, the list of the entry points, each formatted as
  "<name> source: <value>", is stored under the key \<^verbatim>\<open>entry_points\<close>; when there is
  none, \<^verbatim>\<open>inspect_metadata\<close> adds no such key, so that the record has the key exactly
  when the structured metadata of the distribution has it.
\<close>

theorem entry_points_attachment:
  assumes "from_name e (name p) = Some d"
  shows "(entry_points d \<noteq> [] \<longrightarrow>
            map_of (fst (inspect_metadata e p i)) ''entry_points'' =
              Some (VList (map (\<lambda>(n, v). n @ '' source: '' @ v) (entry_points d))))
       \<and> (entry_points d = [] \<longrightarrow>
            (''entry_points'' \<in> set (map fst (fst (inspect_metadata e p i))) \<longleftrightarrow>
               (\<exists>j. json d = Some j \<and> ''entry_points'' \<in> set (map fst j))))"
proof (rule conjI; rule impI)
  assume "entry_points d \<noteq> []"
  then have "get_entry_points d \<noteq> []" by (simp add: get_entry_points_def)
  then show "map_of (fst (inspect_metadata e p i)) ''entry_points'' =
              Some (VList (map (\<lambda>(n, v). n @ '' source: '' @ v) (entry_points d)))"
    unfolding inspect_metadata_found [OF assms]
    by (simp add: Let_def map_of_dict_set get_entry_points_def)
next
  assume "entry_points d = []"
  then have g: "get_entry_points d = []" by (simp add: get_entry_points_def)
  show "''entry_points'' \<in> set (map fst (fst (inspect_metadata e p i))) \<longleftrightarrow>
               (\<exists>j. json d = Some j \<and> ''entry_points'' \<in> set (map fst j))"
  proof (cases "json d")
    case None
    then show ?thesis
      unfolding inspect_metadata_found [OF assms] using g
      by (simp add: Let_def seed_keys del: set_map)
  next
    case (Some j)
    then show ?thesis
      unfolding inspect_metadata_found [OF assms] using g
      by (simp add: Let_def seed_keys dict_update_keys del: set_map)
  qed
qed

theorem entry_points_attachment_witness:
  "map_of (fst (inspect_metadata script_env simple_project no_output)) ''entry_points'' =
     Some (VList [''poetry source: poetry.console.application:main''])
   \<and> ''entry_points'' \<notin> set (map fst (fst (inspect_metadata test_env simple_project no_output)))"
proof -
  have f1: "from_name script_env (name simple_project) = Some script_dist"
    by (simp add: script_env_def)
  have f2: "from_name test_env (name simple_project) = Some \<lparr>json = Some TEST_DATA, entry_points = []\<rparr>"
    by (simp add: test_env_def)
  from entry_points_attachment [OF f1, of no_output]
  have a: "map_of (fst (inspect_metadata script_env simple_project no_output)) ''entry_points'' =
     Some (VList [''poetry source: poetry.console.application:main''])"
    by (simp add: script_dist_def)
  from entry_points_attachment [OF f2, of no_output]
  have b: "''entry_points'' \<notin> set (map fst (fst (inspect_metadata test_env simple_project no_output)))"
    by (simp add: TEST_DATA_def)
  from a b show ?thesis by (rule conjI)
qed

text \<open>
  Claim C9 as stated fails: a distribution with no entry point whose structured metadata
  maps \<^verbatim>\<open>entry_points\<close> to an empty list gives a record with that key, mapped to the
  empty list.
\<close>

theorem entry_points_attachment_counterexample:
  "from_name empty_ep_env (name simple_project) = Some empty_ep_dist
   \<and> entry_points empty_ep_dist = []
   \<and> map_of (fst (inspect_metadata empty_ep_env simple_project no_output)) ''entry_points'' =
       Some (VList [])"
  by (simp add: empty_ep_env_def empty_ep_dist_def inspect_metadata_def seed_metadata_def
        dict_update_def get_entry_points_def simple_project_def)

section \<open>Normal mode\<close>

text \<open>
  Claim C8, as amended. For every record whose keys are ASCII strings with no upper-case
  letter and no space, rendered in Normal mode with no explicit property filter, applying
  the header reversal (lower case, spaces replaced by underscores) to each printed header
  recovers the keys of the record outside the skip-list, in the order of the record; hence
  exactly the key set minus the skip-list keys.
\<close>

theorem header_round_trip:
  assumes "\<forall>k \<in> set (map fst data). plain_key k"
  shows "map header_reversal (printed_headers (out (display_normal data [] no_output))) =
           filter (\<lambda>k. k \<notin> set SKIP_PROPERTIES) (map fst data)
         \<and> set (map header_reversal (printed_headers (out (display_normal data [] no_output)))) =
           set (map fst data) - set SKIP_PROPERTIES"
proof -
  have sh: "shown [] = (\<lambda>k. k \<notin> set SKIP_PROPERTIES)"
    by (simp add: shown_def fun_eq_iff)
  have "printed_headers (out (display_normal data [] no_output)) =
          map prettify (filter (\<lambda>k. k \<notin> set SKIP_PROPERTIES) (map fst data))"
    by (simp add: headers_display_normal sh printed_headers_no_output)
  moreover have "map (header_reversal \<circ> prettify)
                   (filter (\<lambda>k. k \<notin> set SKIP_PROPERTIES) (map fst data))
      = filter (\<lambda>k. k \<notin> set SKIP_PROPERTIES) (map fst data)"
    using assms by (intro map_idI) (auto simp: header_reversal_prettify)
  ultimately have l:
    "map header_reversal (printed_headers (out (display_normal data [] no_output))) =
       filter (\<lambda>k. k \<notin> set SKIP_PROPERTIES) (map fst data)"
    by simp
  have "set (map header_reversal (printed_headers (out (display_normal data [] no_output)))) =
           set (map fst data) - set SKIP_PROPERTIES"
    unfolding l by auto
  with l show ?thesis by simp
qed

theorem header_round_trip_witness:
  "list_all plain_key (map fst test_record) \<and>
   map header_reversal (printed_headers (out (display_normal test_record [] no_output))) =
     [''name'', ''version'', ''package_description'', ''author_email'', ''author'']"
proof -
  have h: "\<forall>k \<in> set (map fst test_record). plain_key k"
    by (simp add: test_record_def plain_key_def is_upper_def)
  show ?thesis
    using h header_round_trip [OF h]
    by (simp add: test_record_def SKIP_PROPERTIES_def list_all_iff)
qed

text \<open>
  Claim C8 as stated, for every record, fails: the header of the key \<^verbatim>\<open>Author\<close> is
  \<^verbatim>\<open>Author\<close>, and its reversal is \<^verbatim>\<open>author\<close>, which is not a key of the record.
\<close>

theorem header_round_trip_counterexample:
  "set (map header_reversal (printed_headers
          (out (display_normal [(''Author'', VStr ''testauthor'')] [] no_output)))) \<noteq>
   set (map fst [(''Author'', VStr ''testauthor'')]) - set SKIP_PROPERTIES"
proof -
  have r: "header_reversal (prettify ''Author'') = ''author''"
    by code_simp
  have "printed_headers (out (display_normal [(''Author'', VStr ''testauthor'')] [] no_output)) =
          [prettify ''Author'']"
    unfolding headers_display_normal printed_headers_no_output
    by (simp add: shown_def SKIP_PROPERTIES_def)
  then have "map header_reversal (printed_headers
          (out (display_normal [(''Author'', VStr ''testauthor'')] [] no_output))) = [''author'']"
    using r by simp
  then show ?thesis
    by (simp add: SKIP_PROPERTIES_def)
qed

section \<open>Compact mode\<close>

text \<open>
  Claim C5. In compact mode the row of a \<^verbatim>\<open>license\<close> value longer than 79 characters
  holds exactly its first 79 characters followed by the fixed hint to use
  \<^verbatim>\<open>-p license\<close>; a value of at most 79 characters is in the row unchanged. This is the
  row of a record that has the license only, and a row of every record with that license
  whose rows are built.
\<close>

theorem compact_license_truncation:
  "build_rows_from_metadata [(''license'', VStr s)] =
     Inr [[''<info>License</>'',
           '' : <b>''
           @ (if 79 < length s
              then take 79 s @ ''... <comment>(use <info>-p license</info> to see full license)</comment>''
              else s)
           @ ''</>'']]
   \<and> (\<forall>data rows. build_rows_from_metadata data = Inr rows \<and> (''license'', VStr s) \<in> set data \<longrightarrow>
         [''<info>License</>'',
          '' : <b>''
          @ (if 79 < length s
             then take 79 s @ ''... <comment>(use <info>-p license</info> to see full license)</comment>''
             else s)
          @ ''</>''] \<in> set rows)"
proof -
  have one: "build_rows_from_metadata [(''license'', VStr s)] =
     Inr [[''<info>'' @ ''License'' @ ''</>'', '' : <b>'' @ truncate_long ''license'' s @ ''</>'']]"
    by (simp add: license_not_skipped row_items_license prettify_license)
  have gen: "[''<info>'' @ ''License'' @ ''</>'', '' : <b>'' @ truncate_long ''license'' s @ ''</>''] \<in> set rows"
    if "build_rows_from_metadata data = Inr rows" "(''license'', VStr s) \<in> set data" for data rows
    using build_rows_member [OF that license_not_skipped]
    by (simp add: row_items_license prettify_license)
  from one have one': "build_rows_from_metadata [(''license'', VStr s)] =
     Inr [[''<info>License</>'',
           '' : <b>''
           @ (if 79 < length s
              then take 79 s @ ''... <comment>(use <info>-p license</info> to see full license)</comment>''
              else s)
           @ ''</>'']]"
    by (simp only: truncate_long_license append.simps)
  have gen': "[''<info>License</>'',
          '' : <b>''
          @ (if 79 < length s
             then take 79 s @ ''... <comment>(use <info>-p license</info> to see full license)</comment>''
             else s)
          @ ''</>''] \<in> set rows"
    if "build_rows_from_metadata data = Inr rows" "(''license'', VStr s) \<in> set data" for data rows
    using gen [OF that] by (simp only: truncate_long_license append.simps)
  show ?thesis
    using one' gen' by blast
qed

theorem compact_license_truncation_witness:
  "build_rows_from_metadata [(''license'', VStr (replicate 100 CHR ''x''))] =
     Inr [[''<info>License</>'',
           '' : <b>'' @ replicate 79 CHR ''x''
           @ ''... <comment>(use <info>-p license</info> to see full license)</comment></>'']]
   \<and> [''<info>License</>'', '' : <b>MIT</>'']
       \<in> set [[''<info>Name</>'', '' : <b>simple-project</>''],
               [''<info>License</>'', '' : <b>MIT</>'']]"
proof -
  have e: "build_rows_from_metadata [(''name'', VStr ''simple-project''), (''license'', VStr ''MIT'')] =
      Inr [[''<info>Name</>'', '' : <b>simple-project</>''],
           [''<info>License</>'', '' : <b>MIT</>'']]"
    by (simp add: SKIP_PROPERTIES_def row_items_def URL_PROPERTIES_def truncate_long_def
          LONG_PROPERTIES_def MAX_DISPLAY_LINE_LENGTH_def prettify_known prettify_license)
  have m: "(''license'', VStr ''MIT'') \<in> set [(''name'', VStr ''simple-project''), (''license'', VStr ''MIT'')]"
    by simp
  from compact_license_truncation [of "replicate 100 CHR ''x''"]
  have a: "build_rows_from_metadata [(''license'', VStr (replicate 100 CHR ''x''))] =
     Inr [[''<info>License</>'',
           '' : <b>'' @ replicate 79 CHR ''x''
           @ ''... <comment>(use <info>-p license</info> to see full license)</comment></>'']]"
    by simp
  from compact_license_truncation [of "''MIT''"] e m
  have b: "[''<info>License</>'', '' : <b>MIT</>'']
       \<in> set [[''<info>Name</>'', '' : <b>simple-project</>''],
               [''<info>License</>'', '' : <b>MIT</>'']]"
    by simp
  from a b show ?thesis by simp
qed

text \<open>
  Claim C7 says that each element of a \<^verbatim>\<open>project_url\<close> list is split on its first
  comma, so that an address with commas is rendered. The code splits on every comma and
  unpacks two parts: the element \<^verbatim>\<open>Documentation, https://example.com/docs?tags=a,b\<close>
  raises \<^verbatim>\<open>ValueError\<close> in \<^verbatim>\<open>display_pretty_urls\<close>, in \<^verbatim>\<open>build_rows_from_metadata\<close>
  and in the command in compact mode.
\<close>

theorem display_pretty_urls_two_commas:
  "display_pretty_urls [docs_url] = Inl (ValueError ''too many values to unpack (expected 2)'')
   \<and> build_rows_from_metadata [(''project_url'', VList [docs_url])] =
       Inl (ValueError ''too many values to unpack (expected 2)'')
   \<and> handle url_env (run_options False True False []) no_output =
       (Inl (ValueError ''too many values to unpack (expected 2)''), no_output)"
  by (simp add: display_pretty_urls_def unpack_pair_def docs_url_def SKIP_PROPERTIES_def
        row_items_def URL_PROPERTIES_def handle_def run_options_def test_env_def url_env_def
        get_package_from_dependency_def inspect_metadata_def seed_metadata_def dict_update_def
        get_entry_points_def simple_project_def truncate_long_def LONG_PROPERTIES_def)

text \<open>
  Claim C1 says that a requested property is rendered even when it is in the skip-list, in
  Normal and in Compact mode alike. With \<^verbatim>\<open>--property summary\<close> the Normal mode prints the
  summary, and the Compact mode renders a table with no row.
\<close>

theorem compact_ignores_requested_skip_property:
  "handle test_env (run_options False True False [''summary'']) no_output =
     (Inr 0, \<lparr>out = [Table []], err = []\<rparr>)
   \<and> handle test_env (run_options False False False [''summary'']) no_output =
     (Inr 0,
      \<lparr>out = [Line ''<b><info>Summary</info></b>'',
              Line ''<c2> this is a test package</c2>'',
              Line []],
       err = []\<rparr>)"
proof -
  note h = handle_resolved [OF resolve_test_env_run inspect_metadata_test_env]
  have c: "handle test_env (run_options False True False [''summary'']) no_output =
     (Inr 0, \<lparr>out = [Table []], err = []\<rparr>)"
    unfolding h
    by (simp add: run_options_def test_record_def SKIP_PROPERTIES_def render_table_def
          no_output_def)
  have n: "handle test_env (run_options False False False [''summary'']) no_output =
     (Inr 0,
      \<lparr>out = [Line ''<b><info>Summary</info></b>'',
              Line ''<c2> this is a test package</c2>'',
              Line []],
       err = []\<rparr>)"
    unfolding h
    by (simp add: run_options_def test_record_def SKIP_PROPERTIES_def no_output_def line_def
          display_value_def header_line_def scalar_line_def prettify_known)
  from c n show ?thesis by (rule conjI)
qed

section \<open>The modes and the requested properties\<close>

text \<open>
  Claim C4, as amended. Once the package is resolved and unless \<^verbatim>\<open>--list-properties\<close>
  is given: when some requested \<^verbatim>\<open>--property\<close> name is absent from the gathered
  metadata, the command exits with code 1 and its only output after the gathering is one
  error line, which names the first missing property in request order; when every
  requested name is present, the command exits with code 0 in Normal and JSON mode, and in
  Compact mode when every element of a URL property has exactly one comma.
\<close>

theorem property_validation:
  assumes "get_package_from_dependency e (dependency opts) = Inr pkg"
    and "inspect_metadata e pkg i = (metadata, i1)"
    and "\<not> opt_list_properties opts"
  shows "(\<not> set (opt_property opts) \<subseteq> set (map fst metadata) \<longrightarrow>
            (\<exists>p. find (\<lambda>p. p \<notin> set (map fst metadata)) (opt_property opts) = Some p
                 \<and> handle e opts i =
                     (Inr 1,
                      i1\<lparr>err := err i @ [Line (''<error>Property '' @ [CHR 0x27] @ p @ [CHR 0x27]
                                                 @ '' not available.</error>'')]\<rparr>)))
       \<and> (set (opt_property opts) \<subseteq> set (map fst metadata)
            \<and> (opt_json opts \<or> \<not> opt_compact opts \<or> urls_well_formed metadata) \<longrightarrow>
            fst (handle e opts i) = Inr 0)"
proof (rule conjI; rule impI)
  assume "\<not> set (opt_property opts) \<subseteq> set (map fst metadata)"
  then obtain p where p: "find (\<lambda>p. p \<notin> set (map fst metadata)) (opt_property opts) = Some p"
    using missing_has_first [of "opt_property opts" "set (map fst metadata)"] by auto
  show "\<exists>p. find (\<lambda>p. p \<notin> set (map fst metadata)) (opt_property opts) = Some p
                 \<and> handle e opts i =
                     (Inr 1,
                      i1\<lparr>err := err i @ [Line (''<error>Property '' @ [CHR 0x27] @ p @ [CHR 0x27]
                                                 @ '' not available.</error>'')]\<rparr>)"
    by (rule exI [of _ p], rule conjI, rule p, rule handle_first_missing [OF assms p])
next
  assume a: "set (opt_property opts) \<subseteq> set (map fst metadata)
            \<and> (opt_json opts \<or> \<not> opt_compact opts \<or> urls_well_formed metadata)"
  show "fst (handle e opts i) = Inr 0"
    by (rule handle_all_present [OF assms conjunct1 [OF a] conjunct2 [OF a]])
qed

theorem property_validation_witness:
  "handle test_env (run_options False False False [''name'', ''does-not-exist'', ''nope'']) no_output =
     (Inr 1,
      \<lparr>out = [],
       err = [Line (''<error>Property '' @ [CHR 0x27] @ ''does-not-exist'' @ [CHR 0x27]
                    @ '' not available.</error>'')]\<rparr>)
   \<and> fst (handle test_env (run_options False False False [''name'', ''summary'']) no_output) = Inr 0
   \<and> fst (handle test_env (run_options False True False []) no_output) = Inr 0"
proof -
  have w: "urls_well_formed test_record"
    by (simp add: urls_well_formed_def test_record_def URL_PROPERTIES_def)
  have nl: "\<not> opt_list_properties (run_options j c False ps)" for j c ps
    by (simp add: run_options_def)
  note t = property_validation [OF resolve_test_env_run inspect_metadata_test_env nl]
  have a: "handle test_env (run_options False False False [''name'', ''does-not-exist'', ''nope'']) no_output =
     (Inr 1,
      \<lparr>out = [],
       err = [Line (''<error>Property '' @ [CHR 0x27] @ ''does-not-exist'' @ [CHR 0x27]
                    @ '' not available.</error>'')]\<rparr>)"
    using t [of False False "[''name'', ''does-not-exist'', ''nope'']"]
    by (simp add: run_options_def test_record_def no_output_def)
  have b: "fst (handle test_env (run_options False False False [''name'', ''summary'']) no_output) = Inr 0"
    using t [of False False "[''name'', ''summary'']"]
    by (simp add: run_options_def test_record_def)
  have c: "fst (handle test_env (run_options False True False []) no_output) = Inr 0"
    using t [of False True "[]"] w
    by (simp add: run_options_def)
  from a b c show ?thesis by simp
qed

text \<open>
  Claim C4 as stated fails with \<^verbatim>\<open>--list-properties\<close>: the requested properties are not
  validated, and the command prints the list of properties and exits with code 0.
\<close>

theorem property_validation_counterexample:
  "''does-not-exist'' \<notin> set (map fst (fst (inspect_metadata test_env simple_project no_output)))
   \<and> handle test_env (run_options False False True [''does-not-exist'']) no_output =
       (Inr 0,
        \<lparr>out = [Line ''<b>Available properties for <info>simple-project</info> are:</b>'',
                Line (''<info>'' @ join [CHR 0x0A] (map (\<lambda>x. ''- '' @ x) test_keys) @ ''</info>'')],
         err = []\<rparr>)"
proof -
  have l: "opt_list_properties (run_options j c True ps)" for j c ps
    by (simp add: run_options_def)
  have "handle test_env (run_options False False True [''does-not-exist'']) no_output =
       (Inr 0,
        \<lparr>out = [Line ''<b>Available properties for <info>simple-project</info> are:</b>'',
                Line (''<info>'' @ join [CHR 0x0A] (map (\<lambda>x. ''- '' @ x) test_keys) @ ''</info>'')],
         err = []\<rparr>)"
    unfolding handle_list_properties [OF resolve_test_env_run inspect_metadata_test_env l]
    by (simp add: test_record_def test_keys_def line_def no_output_def simple_project_def)
  then show ?thesis
    by (simp add: inspect_metadata_test_env test_record_def)
qed

text \<open>
  Claim C6, as amended. In JSON mode, with the package resolved and every requested
  property present, the command exits with code 0 and writes to the error stream the
  serialization of the record: the whole record, skip-list keys included, when no property
  is requested, else a record whose keys are the requested properties, each with the value
  it has in the metadata. The JSON rendering writes nothing to standard output, which holds
  what the gathering of the metadata wrote: nothing when the distribution is found with
  structured metadata.
\<close>

theorem json_mode:
  assumes "get_package_from_dependency e (dependency opts) = Inr pkg"
    and "inspect_metadata e pkg i = (metadata, i1)"
    and "\<not> opt_list_properties opts"
    and "opt_json opts"
    and "set (opt_property opts) \<subseteq> set (map fst metadata)"
  shows "\<exists>dm. handle e opts i = (Inr 0, i1\<lparr>err := err i @ [Write (json_dumps e dm)]\<rparr>)
           \<and> (opt_property opts = [] \<longrightarrow> dm = metadata)
           \<and> (opt_property opts \<noteq> [] \<longrightarrow>
                set (map fst dm) = set (opt_property opts) \<and> distinct (map fst dm)
                \<and> (\<forall>k \<in> set (opt_property opts). map_of dm k = map_of metadata k))
           \<and> (\<forall>d j. from_name e (name pkg) = Some d \<and> json d = Some j \<longrightarrow> i1 = i)"
proof -
  from assms(5) obtain sel where s: "select_properties (opt_property opts) metadata [] = Inr sel"
    using select_total [of "opt_property opts" metadata "[]"] by auto
  define dm where "dm = (if sel = [] then metadata else sel)"
  have e1: "err i1 = err i"
    using inspect_metadata_err [of e pkg i] assms(2) by simp
  have h: "handle e opts i = (Inr 0, i1\<lparr>err := err i @ [Write (json_dumps e dm)]\<rparr>)"
    unfolding handle_render [OF assms(1,2,3) s] dm_def write_stderr_def e1
    using assms(4) by (simp only: if_True)
  have a: "opt_property opts = [] \<longrightarrow> dm = metadata"
    using select_empty [OF s] by (simp add: dm_def)
  have b: "opt_property opts \<noteq> [] \<longrightarrow>
                set (map fst dm) = set (opt_property opts) \<and> distinct (map fst dm)
                \<and> (\<forall>k \<in> set (opt_property opts). map_of dm k = map_of metadata k)"
  proof
    assume "opt_property opts \<noteq> []"
    then have d: "dm = sel" using select_empty [OF s] by (simp add: dm_def)
    have "set (map fst sel) = set (opt_property opts)"
      using select_keys [OF s] by simp
    moreover have "distinct (map fst sel)"
      using select_distinct [OF s] by simp
    moreover have "\<forall>k \<in> set (opt_property opts). map_of sel k = map_of metadata k"
      using select_map_of [OF s] by simp
    ultimately show "set (map fst dm) = set (opt_property opts) \<and> distinct (map fst dm)
                \<and> (\<forall>k \<in> set (opt_property opts). map_of dm k = map_of metadata k)"
      unfolding d by simp
  qed
  have c: "\<forall>d j. from_name e (name pkg) = Some d \<and> json d = Some j \<longrightarrow> i1 = i"
    using inspect_metadata_found_out [of e pkg _ _ i] assms(2) by auto
  show ?thesis
    by (rule exI [of _ dm], intro conjI, rule h, rule a, rule b, rule c)
qed

theorem json_mode_witness:
  "(\<exists>dm. handle test_env (run_options True True False [''summary'', ''name'']) no_output =
            (Inr 0, \<lparr>out = [], err = [Write (json_text dm)]\<rparr>)
         \<and> set (map fst dm) = {''summary'', ''name''}
         \<and> distinct (map fst dm)
         \<and> map_of dm ''summary'' = Some (VStr ''this is a test package'')
         \<and> map_of dm ''name'' = Some (VStr ''test-package-1''))
   \<and> handle test_env (run_options True False False []) no_output =
        (Inr 0, \<lparr>out = [], err = [Write (json_text test_record)]\<rparr>)"
proof -
  have j: "opt_json (run_options True c l ps)" for c l ps
    by (simp add: run_options_def)
  have nl: "\<not> opt_list_properties (run_options j c False ps)" for j c ps
    by (simp add: run_options_def)
  have s1: "set (opt_property (run_options True True False [''summary'', ''name'']))
              \<subseteq> set (map fst test_record)"
    by (simp add: run_options_def test_record_def)
  have s2: "set (opt_property (run_options True False False [])) \<subseteq> set (map fst test_record)"
    by (simp add: run_options_def)
  have p1: "opt_property (run_options True True False [''summary'', ''name'']) = [''summary'', ''name'']"
    by (simp add: run_options_def)
  have p2: "opt_property (run_options True False False []) = []"
    by (simp add: run_options_def)
  have m: "map_of test_record ''summary'' = Some (VStr ''this is a test package'')"
    "map_of test_record ''name'' = Some (VStr ''test-package-1'')"
    by (simp_all add: test_record_def)
  from json_mode [OF resolve_test_env_run inspect_metadata_test_env nl j s1]
  have a: "\<exists>dm. handle test_env (run_options True True False [''summary'', ''name'']) no_output =
            (Inr 0, \<lparr>out = [], err = [Write (json_text dm)]\<rparr>)
         \<and> set (map fst dm) = {''summary'', ''name''}
         \<and> distinct (map fst dm)
         \<and> map_of dm ''summary'' = Some (VStr ''this is a test package'')
         \<and> map_of dm ''name'' = Some (VStr ''test-package-1'')"
    unfolding p1 json_dumps_test_env by (auto simp: m no_output_def)
  from json_mode [OF resolve_test_env_run inspect_metadata_test_env nl j s2]
  have b: "handle test_env (run_options True False False []) no_output =
        (Inr 0, \<lparr>out = [], err = [Write (json_text test_record)]\<rparr>)"
    unfolding p2 json_dumps_test_env by (auto simp: no_output_def)
  from a b show ?thesis by (rule conjI)
qed

text \<open>
  Claim C6 as stated fails when no distribution is installed: in JSON mode the warning of
  \<^verbatim>\<open>inspect_metadata\<close> is written to standard output.
\<close>

theorem json_mode_counterexample:
  "handle bare_env (run_options True False False []) no_output =
     (Inr 0,
      \<lparr>out = [Line ''<warning>Could not find package metadata for name: simple-project: showing basic info</>''],
       err = [Write (json_text [(''name'', VStr ''simple-project''),
                                (''version'', VStr ''1.2.3''),
                                (''package_description'', VStr ''Some description.'')])]\<rparr>)"
  by (simp add: handle_def run_options_def get_package_from_dependency_def bare_env_def
        inspect_metadata_def seed_metadata_def simple_project_def line_def write_stderr_def
        no_output_def)

text \<open>
  Claim C10. With \<^verbatim>\<open>--list-properties\<close> the flags \<^verbatim>\<open>--json\<close> and \<^verbatim>\<open>--compact\<close> and
  the \<^verbatim>\<open>--property\<close> options have no effect, and once the package is resolved the
  command prints the list of properties and exits with code 0, whatever properties are
  requested. Without \<^verbatim>\<open>--list-properties\<close> and with \<^verbatim>\<open>--json\<close>, the flag
  \<^verbatim>\<open>--compact\<close> has no effect, and for a resolved package whose metadata has every
  requested property the command, with or without \<^verbatim>\<open>--compact\<close>, exits with code 0,
  writes the serialization of the record to the error stream and adds nothing to standard
  output: no table is rendered.
\<close>

theorem mode_flag_precedence:
  "(opt_list_properties opts \<longrightarrow>
      handle e opts i = handle e (opts\<lparr>opt_json := j, opt_compact := c, opt_property := ps\<rparr>) i)
   \<and> (opt_list_properties opts \<and> get_package_from_dependency e (dependency opts) = Inr pkg \<longrightarrow>
        handle e opts i =
          (Inr 0,
           line (''<info>''
                 @ join [CHR 0x0A] (map (\<lambda>x. ''- '' @ x) (map fst (fst (inspect_metadata e pkg i))))
                 @ ''</info>'')
             (line (''<b>Available properties for <info>'' @ name pkg @ ''</info> are:</b>'')
                (snd (inspect_metadata e pkg i)))))
   \<and> (\<not> opt_list_properties opts \<and> opt_json opts \<longrightarrow>
        handle e opts i = handle e (opts\<lparr>opt_compact := c\<rparr>) i)
   \<and> (\<not> opt_list_properties opts \<and> opt_json opts
        \<and> get_package_from_dependency e (dependency opts) = Inr pkg
        \<and> set (opt_property opts) \<subseteq> set (map fst (fst (inspect_metadata e pkg i))) \<longrightarrow>
        (\<exists>dm. handle e opts i =
                (Inr 0, (snd (inspect_metadata e pkg i))\<lparr>err := err i @ [Write (json_dumps e dm)]\<rparr>)
           \<and> out (snd (handle e opts i)) = out (snd (inspect_metadata e pkg i))
           \<and> (opt_property opts = [] \<longrightarrow> dm = fst (inspect_metadata e pkg i))
           \<and> (opt_property opts \<noteq> [] \<longrightarrow>
                set (map fst dm) = set (opt_property opts) \<and> distinct (map fst dm)
                \<and> (\<forall>k \<in> set (opt_property opts).
                      map_of dm k = map_of (fst (inspect_metadata e pkg i)) k))))"
proof (intro conjI impI)
  assume "opt_list_properties opts"
  then show "handle e opts i = handle e (opts\<lparr>opt_json := j, opt_compact := c, opt_property := ps\<rparr>) i"
    by (rule list_properties_ignores_flags)
next
  assume a: "opt_list_properties opts \<and> get_package_from_dependency e (dependency opts) = Inr pkg"
  have "inspect_metadata e pkg i = (fst (inspect_metadata e pkg i), snd (inspect_metadata e pkg i))"
    by simp
  from handle_list_properties [OF conjunct2 [OF a] this conjunct1 [OF a]]
  show "handle e opts i =
          (Inr 0,
           line (''<info>''
                 @ join [CHR 0x0A] (map (\<lambda>x. ''- '' @ x) (map fst (fst (inspect_metadata e pkg i))))
                 @ ''</info>'')
             (line (''<b>Available properties for <info>'' @ name pkg @ ''</info> are:</b>'')
                (snd (inspect_metadata e pkg i))))" .
next
  assume a: "\<not> opt_list_properties opts \<and> opt_json opts"
  show "handle e opts i = handle e (opts\<lparr>opt_compact := c\<rparr>) i"
    by (rule json_ignores_compact [OF conjunct1 [OF a] conjunct2 [OF a]])
next
  assume a: "\<not> opt_list_properties opts \<and> opt_json opts
        \<and> get_package_from_dependency e (dependency opts) = Inr pkg
        \<and> set (opt_property opts) \<subseteq> set (map fst (fst (inspect_metadata e pkg i)))"
  then have nl: "\<not> opt_list_properties opts" and js: "opt_json opts"
    and r: "get_package_from_dependency e (dependency opts) = Inr pkg"
    and ss: "set (opt_property opts) \<subseteq> set (map fst (fst (inspect_metadata e pkg i)))"
    by simp_all
  from handle_json [OF r nl js ss] obtain dm where
    h: "handle e opts i =
          (Inr 0, (snd (inspect_metadata e pkg i))\<lparr>err := err i @ [Write (json_dumps e dm)]\<rparr>)"
    and p: "opt_property opts = [] \<longrightarrow> dm = fst (inspect_metadata e pkg i)"
    and q: "opt_property opts \<noteq> [] \<longrightarrow>
                set (map fst dm) = set (opt_property opts) \<and> distinct (map fst dm)
                \<and> (\<forall>k \<in> set (opt_property opts).
                      map_of dm k = map_of (fst (inspect_metadata e pkg i)) k)"
    by (elim exE conjE)
  have o: "out (snd (handle e opts i)) = out (snd (inspect_metadata e pkg i))"
    unfolding h by simp
  show "\<exists>dm. handle e opts i =
                (Inr 0, (snd (inspect_metadata e pkg i))\<lparr>err := err i @ [Write (json_dumps e dm)]\<rparr>)
           \<and> out (snd (handle e opts i)) = out (snd (inspect_metadata e pkg i))
           \<and> (opt_property opts = [] \<longrightarrow> dm = fst (inspect_metadata e pkg i))
           \<and> (opt_property opts \<noteq> [] \<longrightarrow>
                set (map fst dm) = set (opt_property opts) \<and> distinct (map fst dm)
                \<and> (\<forall>k \<in> set (opt_property opts).
                      map_of dm k = map_of (fst (inspect_metadata e pkg i)) k))"
    by (rule exI [of _ dm], intro conjI, rule h, rule o, rule p, rule q)
qed

theorem mode_flag_precedence_witness:
  "handle test_env (run_options True True True [''does-not-exist'']) no_output =
     handle test_env (run_options False False True []) no_output
   \<and> handle test_env (run_options True True True [''does-not-exist'']) no_output =
       (Inr 0,
        \<lparr>out = [Line ''<b>Available properties for <info>simple-project</info> are:</b>'',
                Line (''<info>'' @ join [CHR 0x0A] (map (\<lambda>x. ''- '' @ x) test_keys) @ ''</info>'')],
         err = []\<rparr>)
   \<and> handle test_env (run_options True True False [''name'']) no_output =
       handle test_env (run_options True False False [''name'']) no_output
   \<and> handle test_env (run_options True True False []) no_output =
       (Inr 0, \<lparr>out = [], err = [Write (json_text test_record)]\<rparr>)
   \<and> (\<exists>dm. handle test_env (run_options True True False [''name'']) no_output =
               (Inr 0, \<lparr>out = [], err = [Write (json_text dm)]\<rparr>)
          \<and> set (map fst dm) = {''name''}
          \<and> distinct (map fst dm)
          \<and> map_of dm ''name'' = Some (VStr ''test-package-1''))"
proof -
  have l: "opt_list_properties (run_options True True True [''does-not-exist''])"
    by (simp add: run_options_def)
  have nl: "\<not> opt_list_properties (run_options True True False [''name''])
            \<and> opt_json (run_options True True False [''name''])"
    by (simp add: run_options_def)
  have u1: "run_options True True True [''does-not-exist'']
              \<lparr>opt_json := False, opt_compact := False, opt_property := []\<rparr> =
            run_options False False True []"
    by (simp add: run_options_def)
  have u2: "run_options True True False [''name'']\<lparr>opt_compact := False\<rparr> =
            run_options True False False [''name'']"
    by (simp add: run_options_def)
  note t = mode_flag_precedence [where opts = "run_options True True True [''does-not-exist'']"
              and e = test_env and i = no_output and j = False and c = False and ps = "[]"
              and pkg = simple_project]
  have a: "handle test_env (run_options True True True [''does-not-exist'']) no_output =
     handle test_env (run_options False False True []) no_output"
    using conjunct1 [OF t] l unfolding u1 by simp
  have b: "handle test_env (run_options True True True [''does-not-exist'']) no_output =
       (Inr 0,
        \<lparr>out = [Line ''<b>Available properties for <info>simple-project</info> are:</b>'',
                Line (''<info>'' @ join [CHR 0x0A] (map (\<lambda>x. ''- '' @ x) test_keys) @ ''</info>'')],
         err = []\<rparr>)"
  proof -
    have "opt_list_properties (run_options True True True [''does-not-exist''])
          \<and> get_package_from_dependency test_env
               (dependency (run_options True True True [''does-not-exist''])) = Inr simple_project"
      using l resolve_test_env_run by simp
    from mp [OF conjunct1 [OF conjunct2 [OF t]] this] show ?thesis
      unfolding inspect_metadata_test_env fst_conv snd_conv
      by (simp add: test_record_def test_keys_def line_def no_output_def simple_project_def)
  qed
  have c: "handle test_env (run_options True True False [''name'']) no_output =
       handle test_env (run_options True False False [''name'']) no_output"
    using conjunct1 [OF conjunct2 [OF conjunct2 [OF mode_flag_precedence
            [where opts = "run_options True True False [''name'']" and e = test_env
               and i = no_output and c = False]]]] nl
    unfolding u2 by simp
  have h0: "\<not> opt_list_properties (run_options True True False [])
        \<and> opt_json (run_options True True False [])
        \<and> get_package_from_dependency test_env (dependency (run_options True True False []))
            = Inr simple_project
        \<and> set (opt_property (run_options True True False []))
            \<subseteq> set (map fst (fst (inspect_metadata test_env simple_project no_output)))"
    using resolve_test_env_run [of True True False "[]"] by (simp add: run_options_def)
  have p0: "opt_property (run_options True True False []) = []"
    by (simp add: run_options_def)
  from mp [OF conjunct2 [OF conjunct2 [OF conjunct2 [OF mode_flag_precedence
            [where opts = "run_options True True False []" and e = test_env
               and i = no_output and pkg = simple_project]]]] h0]
  have d: "handle test_env (run_options True True False []) no_output =
       (Inr 0, \<lparr>out = [], err = [Write (json_text test_record)]\<rparr>)"
    unfolding inspect_metadata_test_env fst_conv snd_conv p0 json_dumps_test_env
    by (auto simp: no_output_def)
  have h1: "\<not> opt_list_properties (run_options True True False [''name''])
        \<and> opt_json (run_options True True False [''name''])
        \<and> get_package_from_dependency test_env (dependency (run_options True True False [''name'']))
            = Inr simple_project
        \<and> set (opt_property (run_options True True False [''name'']))
            \<subseteq> set (map fst (fst (inspect_metadata test_env simple_project no_output)))"
    using resolve_test_env_run [of True True False "[''name'']"]
    by (simp add: run_options_def inspect_metadata_test_env test_record_def)
  have p1: "opt_property (run_options True True False [''name'']) = [''name'']"
    by (simp add: run_options_def)
  have m: "map_of test_record ''name'' = Some (VStr ''test-package-1'')"
    by (simp add: test_record_def)
  from mp [OF conjunct2 [OF conjunct2 [OF conjunct2 [OF mode_flag_precedence
            [where opts = "run_options True True False [''name'']" and e = test_env
               and i = no_output and pkg = simple_project]]]] h1]
  have f: "\<exists>dm. handle test_env (run_options True True False [''name'']) no_output =
               (Inr 0, \<lparr>out = [], err = [Write (json_text dm)]\<rparr>)
          \<and> set (map fst dm) = {''name''}
          \<and> distinct (map fst dm)
          \<and> map_of dm ''name'' = Some (VStr ''test-package-1'')"
    unfolding inspect_metadata_test_env fst_conv snd_conv p1 json_dumps_test_env
    by (auto simp: m no_output_def)
  from a b c d f show ?thesis by (intro conjI)
qed

end
